theory Spec2Isabelle
  imports Complex_Main
begin

section \<open>Python values used by \<open>mem.py\<close>\<close>

text \<open>
  The script is Python (\<open>requires-python >= 3.12\<close>). Strings are modelled as
  \<^typ>\<open>string\<close>, a character standing for a code point below 256; in that range
  the regular-expression class \<open>\d\<close> is exactly \<open>0-9\<close>. Python's unbounded
  integers are \<^typ>\<open>int\<close>. A Python \<open>float\<close> is an IEEE double: a finite
  double is modelled by its exact value, a \<^typ>\<open>rat\<close>, beside the two infinities
  and NaN, and every float operation rounds its exact result to the nearest double, ties
  to even. Exceptions are values: a function that may raise returns \<open>exn + 'a\<close>,
  \<open>Inl\<close> being the raise. An exception carries what its message is made of.
\<close>

datatype json =
    JNull
  | JBool bool
  | JNum rat
  | JStr string
  | JArr "json list"
  | JObj "(string \<times> json) list"

datatype exn =
    ValueError string
  | OverflowError
  | ZeroDivisionError
  | KeyError string
  | TypeError json
  | AttributeError
  | ValidationError json
  | ApiException string
  | MarkupError string

datatype pyfloat = Finite rat | PosInf | NegInf | NaN

datatype pynum = PyInt int | PyFloat pyfloat

definition is_digit :: "char \<Rightarrow> bool" where
  "is_digit c = (c \<in> set ''0123456789'')"

definition is_letter :: "char \<Rightarrow> bool" where
  "is_letter c =
     (c \<in> set ''abcdefghijklmnopqrstuvwxyzABCDEFGHIJKLMNOPQRSTUVWXYZ'')"

definition digit_value :: "char \<Rightarrow> int" where
  "digit_value c = of_char c - 48"

definition decimal :: "string \<Rightarrow> int" where
  "decimal ds = foldl (\<lambda>acc c. 10 * acc + digit_value c) 0 ds"

text \<open>
  CPython (3.11 and later) refuses to convert a decimal string of more than
  \<open>sys.int_info.default_max_str_digits\<close> digits; the default is 4300.
\<close>

definition int_max_str_digits :: nat where
  "int_max_str_digits = 4300"

text \<open>
  \<open>int(s)\<close> for a string: surrounding whitespace is dropped, a sign may come first,
  and single underscores may separate the digits. The whitespace \<open>int\<close> drops is the
  ASCII whitespace (tab, line feed, vertical tab, form feed, carriage return, space) and,
  of the code points from 128 to 255, the two Unicode spaces \<open>0x85\<close> and \<open>0xA0\<close>;
  the separators \<open>0x1C\<close> to \<open>0x1F\<close> are not dropped. The text of the two library
  messages is shortened.
\<close>

definition is_space :: "char \<Rightarrow> bool" where
  "is_space c =
     (c \<in> set [CHR 0x09, CHR 0x0A, CHR 0x0B, CHR 0x0C, CHR 0x0D, CHR 0x20, CHR 0x85,
               CHR 0xA0])"

definition strip :: "string \<Rightarrow> string" where
  "strip s = rev (dropWhile is_space (rev (dropWhile is_space s)))"

fun int_body :: "string \<Rightarrow> bool" where
  "int_body [] = False"
| "int_body [c] = is_digit c"
| "int_body (c # d # cs) =
     (is_digit c \<and> (if d = CHR ''_'' then int_body cs else int_body (d # cs)))"

definition int_of_str :: "string \<Rightarrow> exn + int" where
  "int_of_str s =
     (let t = strip s;
          (neg, body) =
            (case t of
               [] \<Rightarrow> (False, [])
             | c # r \<Rightarrow>
                 if c = CHR ''-'' then (True, r)
                 else if c = CHR ''+'' then (False, r)
                 else (False, t));
          ds = filter (\<lambda>c. c \<noteq> CHR ''_'') body
      in if \<not> int_body body
         then Inl (ValueError ''invalid literal for int() with base 10'')
         else if length ds > int_max_str_digits
         then Inl (ValueError ''Exceeds the limit (4300 digits) for integer string conversion'')
         else Inr (if neg then - decimal ds else decimal ds))"

text \<open>\<open>s.rstrip(chars)\<close>: trailing characters that occur in \<open>chars\<close> are removed.\<close>

definition rstrip :: "string \<Rightarrow> string \<Rightarrow> string" where
  "rstrip chars s = rev (dropWhile (\<lambda>c. c \<in> set chars) (rev s))"

text \<open>\<open>sep.join(xs)\<close>.\<close>

fun join :: "string \<Rightarrow> string list \<Rightarrow> string" where
  "join sep [] = []"
| "join sep [x] = x"
| "join sep (x # y # ys) = x @ sep @ join sep (y # ys)"

subsection \<open>Floats\<close>

text \<open>The number of bits of a positive integer.\<close>

function bit_length :: "int \<Rightarrow> nat" where
  "bit_length n = (if n \<le> 0 then 0 else Suc (bit_length (n div 2)))"
  by pat_completeness auto
termination
  by (relation "measure nat") auto

declare bit_length.simps [simp del]

text \<open>The exponent \<open>e\<close> with \<open>2^e \<le> |x| < 2^(e+1)\<close>, for \<open>x \<noteq> 0\<close>.\<close>

definition float_exponent :: "rat \<Rightarrow> int" where
  "float_exponent x =
     (let (p, q) = quotient_of \<bar>x\<bar>;
          d = int (bit_length p) - int (bit_length q)
      in if 2 powi d \<le> \<bar>x\<bar> then d else d - 1)"

definition round_half_even :: "rat \<Rightarrow> int" where
  "round_half_even x =
     (let f = \<lfloor>x\<rfloor>; d = x - of_int f
      in if d < 1 / 2 then f
         else if 1 / 2 < d then f + 1
         else if even f then f else f + 1)"

text \<open>
  Rounding of an exact value to the nearest double, ties to even, with an unbounded
  exponent upwards: a normal double has 53 significant bits; below \<open>2^-1022\<close> the
  doubles are the multiples of \<open>2^-1074\<close> (the subnormal range), so the exponent is not
  taken below \<open>-1022\<close>. The sign of a zero is not kept.
\<close>

definition round_double :: "rat \<Rightarrow> rat" where
  "round_double x =
     (if x = 0 then 0
      else let u = 2 powi (max (float_exponent x) (- 1022) - 52)
           in of_int (round_half_even (x / u)) * u)"

definition float_max_bound :: rat where
  "float_max_bound = 2 ^ 1024"

text \<open>
  The result of a float operation whose exact value is \<open>x\<close>: when the rounded value
  leaves the range of the doubles the result is an infinity.
\<close>

definition to_float :: "rat \<Rightarrow> pyfloat" where
  "to_float x =
     (let d = round_double x
      in if float_max_bound \<le> d then PosInf
         else if d \<le> - float_max_bound then NegInf
         else Finite d)"

text \<open>
  \<open>float(n)\<close> as done implicitly when an \<open>int\<close> meets a \<open>float\<close>: Python raises
  when the rounded value is out of range, so the result is a finite double.
\<close>

definition int_to_float :: "int \<Rightarrow> exn + rat" where
  "int_to_float n =
     (let d = round_double (of_int n)
      in if float_max_bound \<le> \<bar>d\<bar> then Inl OverflowError else Inr d)"

text \<open>\<open>a / b\<close> for two \<open>int\<close>s: the correctly rounded quotient, a finite double.\<close>

definition int_truediv :: "int \<Rightarrow> int \<Rightarrow> exn + rat" where
  "int_truediv a b =
     (if b = 0 then Inl ZeroDivisionError
      else let d = round_double (of_int a / of_int b)
           in if float_max_bound \<le> \<bar>d\<bar> then Inl OverflowError else Inr d)"

text \<open>\<open>x > n\<close> for a float \<open>x\<close> and a number \<open>n\<close>: the comparison is exact.\<close>

definition float_gt :: "pyfloat \<Rightarrow> rat \<Rightarrow> bool" where
  "float_gt x n = (case x of Finite a \<Rightarrow> n < a | PosInf \<Rightarrow> True | NegInf \<Rightarrow> False | NaN \<Rightarrow> False)"

text \<open>
  \<open>x * y\<close> for two floats. An infinity times a non-zero number is an infinity, with the
  sign of the product; an infinity times zero is NaN.
\<close>

definition float_mul :: "pyfloat \<Rightarrow> pyfloat \<Rightarrow> pyfloat" where
  "float_mul x y =
     (case (x, y) of
        (Finite a, Finite b) \<Rightarrow> to_float (a * b)
      | _ \<Rightarrow>
          if x = NaN \<or> y = NaN \<or> x = Finite 0 \<or> y = Finite 0 then NaN
          else if float_gt x 0 = float_gt y 0 then PosInf
          else NegInf)"

text \<open>
  \<open>x / y\<close> for two finite floats (the operands of the only float division of the
  script come from \<open>int_to_float\<close> and \<open>int_truediv\<close>): Python raises when the divisor
  is zero; a quotient out of range is an infinity.
\<close>

definition float_div :: "rat \<Rightarrow> rat \<Rightarrow> exn + pyfloat" where
  "float_div x y = (if y = 0 then Inl ZeroDivisionError else Inr (to_float (x / y)))"

text \<open>\<open>n * f\<close> for an \<open>int\<close> \<open>n\<close> and a table entry \<open>f\<close>.\<close>

definition py_mul :: "int \<Rightarrow> pynum \<Rightarrow> exn + pynum" where
  "py_mul n f =
     (case f of
        PyInt k \<Rightarrow> Inr (PyInt (n * k))
      | PyFloat y \<Rightarrow>
          (case int_to_float n of
             Inl e \<Rightarrow> Inl e
           | Inr x \<Rightarrow> Inr (PyFloat (float_mul (Finite x) y))))"

text \<open>
  \<open>int(x)\<close> of a number: a finite float is truncated towards zero, an infinity and NaN
  are refused.
\<close>

definition py_int :: "pynum \<Rightarrow> exn + int" where
  "py_int x =
     (case x of
        PyInt n \<Rightarrow> Inr n
      | PyFloat (Finite y) \<Rightarrow> Inr (if 0 \<le> y then \<lfloor>y\<rfloor> else \<lceil>y\<rceil>)
      | PyFloat NaN \<Rightarrow> Inl (ValueError ''cannot convert float NaN to integer'')
      | PyFloat _ \<Rightarrow> Inl OverflowError)"

section \<open>The quantity parser\<close>

text \<open>
  \<open>re.match(r"^(\d+)([a-zA-Z]+)?$", value)\<close>: the two groups of a match. Without
  \<open>re.MULTILINE\<close>, \<open>$\<close> matches at the end of the string and also just before a
  newline that ends the string. The classes of the two groups are disjoint, so the greedy
  match is the only one.
\<close>

definition re_match_quantity :: "string \<Rightarrow> (string \<times> string option) option" where
  "re_match_quantity v =
     (let digits = takeWhile is_digit v;
          rest = dropWhile is_digit v;
          letters = takeWhile is_letter rest;
          tail = dropWhile is_letter rest
      in if digits \<noteq> [] \<and> (tail = [] \<or> tail = [CHR 0x0A])
         then Some (digits, if letters = [] then None else Some letters)
         else None)"

text \<open>The table \<open>units\<close>; \<open>1 / 1024\<close> is a float, the other entries are \<open>int\<close>s.\<close>

definition units :: "string \<Rightarrow> pynum option" where
  "units = map_of
     [(''Ki'', PyFloat (Finite (1 / 1024))),
      (''M'', PyInt 1),
      (''Mi'', PyInt 1),
      (''G'', PyInt 1024),
      (''Gi'', PyInt 1024)]"

definition parse_memory :: "string \<Rightarrow> exn + int" where
  "parse_memory v =
     (case re_match_quantity v of
        None \<Rightarrow> Inl (ValueError (''Invalid memory format: '' @ v))
      | Some (g1, g2) \<Rightarrow>
          (case int_of_str g1 of
             Inl e \<Rightarrow> Inl e
           | Inr number \<Rightarrow>
               (let unit = (case g2 of None \<Rightarrow> ''M'' | Some u \<Rightarrow> u)
                in case units unit of
                     None \<Rightarrow> Inl (ValueError (''Unsupported memory unit: '' @ unit))
                   | Some f \<Rightarrow>
                       (case py_mul number f of
                          Inl e \<Rightarrow> Inl e
                        | Inr r \<Rightarrow> py_int r))))"

text \<open>
  The strings of the form the pattern describes: digits \<open>ds\<close>, then letters
  \<open>ls\<close> (possibly none), then the end of the string or one final newline.
\<close>

definition quantity_shape :: "string \<Rightarrow> string \<Rightarrow> string \<Rightarrow> string \<Rightarrow> bool" where
  "quantity_shape v ds ls nl =
     (v = ds @ ls @ nl \<and> ds \<noteq> [] \<and> list_all is_digit ds \<and> list_all is_letter ls \<and>
      (nl = [] \<or> nl = [CHR 0x0A]))"

section \<open>The metrics models\<close>

text \<open>
  The metrics API returns a decoded JSON document. The classes \<open>ResourceUsage\<close>,
  \<open>NodeMetrics\<close>, \<open>ContainerUsage\<close> and \<open>PodMetrics\<close> validate it: every
  declared field is required and must have the declared type, other keys are ignored.
  A document that is not an object cannot be unpacked by \<open>**metrics\<close>. The two
  exceptions carry the document, of which their message is made.
\<close>

record ResourceUsage =
  cpu :: string
  memory :: string

record NodeMetrics =
  nm_apiVersion :: string
  nm_kind :: string
  nm_metadata :: "(string \<times> json) list"
  nm_timestamp :: string
  nm_window :: string
  nm_usage :: ResourceUsage

record ContainerUsage =
  cu_name :: string
  cu_usage :: ResourceUsage

record PodMetrics =
  pm_apiVersion :: string
  pm_kind :: string
  pm_metadata :: "(string \<times> json) list"
  pm_timestamp :: string
  pm_window :: string
  pm_containers :: "ContainerUsage list"

definition str_field :: "(string \<times> json) list \<Rightarrow> string \<Rightarrow> string option" where
  "str_field obj k = (case map_of obj k of Some (JStr s) \<Rightarrow> Some s | _ \<Rightarrow> None)"

definition dict_field :: "(string \<times> json) list \<Rightarrow> string \<Rightarrow> (string \<times> json) list option" where
  "dict_field obj k = (case map_of obj k of Some (JObj d) \<Rightarrow> Some d | _ \<Rightarrow> None)"

definition validate_ResourceUsage :: "json \<Rightarrow> ResourceUsage option" where
  "validate_ResourceUsage j =
     (case j of
        JObj obj \<Rightarrow>
          (case (str_field obj ''cpu'', str_field obj ''memory'') of
             (Some c, Some m) \<Rightarrow> Some \<lparr>cpu = c, memory = m\<rparr>
           | _ \<Rightarrow> None)
      | _ \<Rightarrow> None)"

definition usage_field :: "(string \<times> json) list \<Rightarrow> ResourceUsage option" where
  "usage_field obj =
     (case map_of obj ''usage'' of Some j \<Rightarrow> validate_ResourceUsage j | None \<Rightarrow> None)"

definition validate_ContainerUsage :: "json \<Rightarrow> ContainerUsage option" where
  "validate_ContainerUsage j =
     (case j of
        JObj obj \<Rightarrow>
          (case (str_field obj ''name'', usage_field obj) of
             (Some n, Some u) \<Rightarrow> Some \<lparr>cu_name = n, cu_usage = u\<rparr>
           | _ \<Rightarrow> None)
      | _ \<Rightarrow> None)"

fun validate_containers :: "json list \<Rightarrow> ContainerUsage list option" where
  "validate_containers [] = Some []"
| "validate_containers (j # js) =
     (case (validate_ContainerUsage j, validate_containers js) of
        (Some c, Some cs) \<Rightarrow> Some (c # cs)
      | _ \<Rightarrow> None)"

definition containers_field :: "(string \<times> json) list \<Rightarrow> ContainerUsage list option" where
  "containers_field obj =
     (case map_of obj ''containers'' of Some (JArr js) \<Rightarrow> validate_containers js | _ \<Rightarrow> None)"

text \<open>\<open>NodeMetrics(**metrics)\<close>\<close>

definition validate_NodeMetrics :: "json \<Rightarrow> exn + NodeMetrics" where
  "validate_NodeMetrics metrics =
     (case metrics of
        JObj obj \<Rightarrow>
          (case (str_field obj ''apiVersion'', str_field obj ''kind'',
                 dict_field obj ''metadata'', str_field obj ''timestamp'',
                 str_field obj ''window'', usage_field obj) of
             (Some a, Some k, Some md, Some t, Some w, Some u) \<Rightarrow>
               Inr \<lparr>nm_apiVersion = a, nm_kind = k, nm_metadata = md, nm_timestamp = t,
                    nm_window = w, nm_usage = u\<rparr>
           | _ \<Rightarrow> Inl (ValidationError metrics))
      | _ \<Rightarrow> Inl (TypeError metrics))"

text \<open>\<open>PodMetrics(**metrics)\<close>\<close>

definition validate_PodMetrics :: "json \<Rightarrow> exn + PodMetrics" where
  "validate_PodMetrics metrics =
     (case metrics of
        JObj obj \<Rightarrow>
          (case (str_field obj ''apiVersion'', str_field obj ''kind'',
                 dict_field obj ''metadata'', str_field obj ''timestamp'',
                 str_field obj ''window'', containers_field obj) of
             (Some a, Some k, Some md, Some t, Some w, Some cs) \<Rightarrow>
               Inr \<lparr>pm_apiVersion = a, pm_kind = k, pm_metadata = md, pm_timestamp = t,
                    pm_window = w, pm_containers = cs\<rparr>
           | _ \<Rightarrow> Inl (ValidationError metrics))
      | _ \<Rightarrow> Inl (TypeError metrics))"

section \<open>The console\<close>

text \<open>
  What the script prints, in order. A table cell is a formatted number or a text; the
  rendering itself (thousands separators, two decimals, colours, the warning sign in front
  of \<open>High Usage\<close>) is left to the console. \<open>FetchError resource_type name e\<close> is
  the line \<open>[bold red]Error fetching memory for {resource_type} {name}: {e}[/bold red]\<close>
  and \<open>AnalyzeError controller_kind controller_name e\<close> is the line
  \<open>[bold red]Error analyzing {controller_kind} {controller_name}: {e}[/bold red]\<close>.
\<close>

datatype cell =
    Text string
  | OptText "string option"
  | Thousands int
  | Fixed2 pyfloat

record table =
  title :: string
  columns :: "string list"
  rows :: "cell list list"

datatype printed =
    FetchError string string exn
  | AnalyzeError string string exn
  | PrintTable table

type_synonym console = "printed list"

section \<open>The cluster\<close>

text \<open>
  The Kubernetes client and the console of the \<open>rich\<close> library are the program's
  environment. Each call the script makes to the client is a field of the record
  \<open>cluster\<close>: it returns the listed objects or raises. The cluster is a snapshot: the
  same call gives the same answer during a run. Of each object, the attributes the script
  reads are kept.

  The console reads the strings it is given as markup: \<open>console.print\<close> raises
  (\<open>MarkupError\<close>) when a line, or a title or a cell of a table, has a closing tag
  such as \<open>[/x]\<close> that closes nothing. The field \<open>print_error\<close> is that behaviour of
  the library: the exception \<open>console.print\<close> raises for what it is asked to print, if
  it raises one.
\<close>

record owner_reference =
  owner_kind :: string
  owner_name :: string

record pod =
  pod_name :: string
  pod_namespace :: string
  pod_owner_references :: "owner_reference list option"
  pod_node_name :: "string option"

record node =
  node_name :: string
  node_capacity :: "(string \<times> string) list"

text \<open>A ReplicaSet, StatefulSet or DaemonSet object.\<close>

record controller =
  ctl_name :: string
  ctl_owner_references :: "owner_reference list option"
  ctl_match_labels :: "(string \<times> string) list option"

record cluster =
  list_node :: "exn + node list"
  list_pod_for_all_namespaces :: "string \<Rightarrow> exn + pod list"
  list_namespaced_pod :: "string \<Rightarrow> string \<Rightarrow> exn + pod list"
  read_namespaced_replica_set :: "string \<Rightarrow> string \<Rightarrow> exn + controller"
  read_namespaced_stateful_set :: "string \<Rightarrow> string \<Rightarrow> exn + controller"
  read_namespaced_daemon_set :: "string \<Rightarrow> string \<Rightarrow> exn + controller"
  list_namespaced_replica_set :: "string \<Rightarrow> exn + controller list"
  get_cluster_custom_object :: "string \<Rightarrow> exn + json"
  get_namespaced_custom_object :: "string option \<Rightarrow> string \<Rightarrow> exn + json"
  print_error :: "printed \<Rightarrow> exn option"

text \<open>
  \<open>self.console.print(item)\<close>: a failure carries, beside the exception, what was
  printed before it.
\<close>

definition console_print :: "cluster \<Rightarrow> printed \<Rightarrow> console \<Rightarrow> (exn \<times> console) + console" where
  "console_print c item con =
     (case print_error c item of
        Some e \<Rightarrow> Inl (e, con)
      | None \<Rightarrow> Inr (con @ [item]))"

section \<open>Controller resolution\<close>

definition label_selector :: "(string \<times> string) list \<Rightarrow> string" where
  "label_selector match_labels =
     join '','' (map (\<lambda>(key, value). key @ ''='' @ value) match_labels)"

text \<open>
  The two nested loops of the Deployment branch return at the first ReplicaSet, in
  listing order, one of whose owner references names the Deployment.
\<close>

definition owned_by_deployment :: "string \<Rightarrow> controller \<Rightarrow> bool" where
  "owned_by_deployment controller_name rs =
     (case ctl_owner_references rs of
        None \<Rightarrow> False
      | Some owners \<Rightarrow>
          list_ex (\<lambda>owner. owner_kind owner = ''Deployment'' \<and> owner_name owner = controller_name)
            owners)"

function fetch_pods_for_controller ::
  "cluster \<Rightarrow> string \<Rightarrow> string \<Rightarrow> string \<Rightarrow> exn + pod list" where
  "fetch_pods_for_controller c controller_kind controller_name namespace =
     (if controller_kind \<in> set [''ReplicaSet'', ''StatefulSet'', ''DaemonSet''] then
        (case (if controller_kind = ''ReplicaSet''
               then read_namespaced_replica_set c controller_name namespace
               else if controller_kind = ''StatefulSet''
               then read_namespaced_stateful_set c controller_name namespace
               else if controller_kind = ''DaemonSet''
               then read_namespaced_daemon_set c controller_name namespace
               else Inl (ValueError (''Unsupported controller kind: '' @ controller_kind))) of
           Inl e \<Rightarrow> Inl e
         | Inr controller \<Rightarrow>
             (case ctl_match_labels controller of
                None \<Rightarrow> Inl AttributeError
              | Some match_labels \<Rightarrow>
                  list_namespaced_pod c namespace (label_selector match_labels)))
      else if controller_kind = ''Deployment'' then
        (case list_namespaced_replica_set c namespace of
           Inl e \<Rightarrow> Inl e
         | Inr replicasets \<Rightarrow>
             (case find (owned_by_deployment controller_name) replicasets of
                Some rs \<Rightarrow> fetch_pods_for_controller c ''ReplicaSet'' (ctl_name rs) namespace
              | None \<Rightarrow> Inl (ValueError (''Unsupported controller kind: '' @ controller_kind))))
      else Inl (ValueError (''Unsupported controller kind: '' @ controller_kind)))"
  by pat_completeness auto
termination
  by (relation "measure (\<lambda>(c, k, n, ns). if k = ''Deployment'' then 1 else 0)") auto

declare fetch_pods_for_controller.simps [simp del]

definition get_controller_kind_and_name :: "pod \<Rightarrow> string option \<times> string option" where
  "get_controller_kind_and_name p =
     (case pod_owner_references p of
        Some (owner # _) \<Rightarrow> (Some (owner_kind owner), Some (owner_name owner))
      | _ \<Rightarrow> (None, None))"

section \<open>Fetching a measurement\<close>

text \<open>\<open>sum(parse_memory(...) for container in containers)\<close>: the first failure raises.\<close>

fun sum_container_memory :: "ContainerUsage list \<Rightarrow> exn + int" where
  "sum_container_memory [] = Inr 0"
| "sum_container_memory (container # containers) =
     (case parse_memory (memory (cu_usage container)) of
        Inl e \<Rightarrow> Inl e
      | Inr m \<Rightarrow>
          (case sum_container_memory containers of
             Inl e \<Rightarrow> Inl e
           | Inr s \<Rightarrow> Inr (m + s)))"

text \<open>The body of the \<open>try\<close> statement of \<open>get_memory_utilization\<close>.\<close>

definition fetch_memory :: "cluster \<Rightarrow> string \<Rightarrow> string option \<Rightarrow> string \<Rightarrow> exn + int" where
  "fetch_memory c resource_type namespace name =
     (if resource_type = ''node'' then
        (case get_cluster_custom_object c name of
           Inl e \<Rightarrow> Inl e
         | Inr metrics \<Rightarrow>
             (case validate_NodeMetrics metrics of
                Inl e \<Rightarrow> Inl e
              | Inr node_metrics \<Rightarrow> parse_memory (memory (nm_usage node_metrics))))
      else if resource_type = ''pod'' then
        (case get_namespaced_custom_object c namespace name of
           Inl e \<Rightarrow> Inl e
         | Inr metrics \<Rightarrow>
             (case validate_PodMetrics metrics of
                Inl e \<Rightarrow> Inl e
              | Inr pod_metrics \<Rightarrow> sum_container_memory (pm_containers pod_metrics)))
      else Inl (ValueError (''Unsupported resource type: '' @ resource_type)))"

text \<open>
  The \<open>except Exception\<close> clause prints the error and returns \<open>None\<close>; an
  exception raised by that \<open>print\<close> leaves the function. The function takes the
  console and returns it with what it printed.
\<close>

definition get_memory_utilization ::
  "cluster \<Rightarrow> string \<Rightarrow> string option \<Rightarrow> string \<Rightarrow> console \<Rightarrow>
   (exn \<times> console) + (int option \<times> console)" where
  "get_memory_utilization c resource_type namespace name con =
     (case fetch_memory c resource_type namespace name of
        Inr m \<Rightarrow> Inr (Some m, con)
      | Inl e \<Rightarrow>
          (case console_print c (FetchError resource_type name e) con of
             Inl f \<Rightarrow> Inl f
           | Inr con' \<Rightarrow> Inr (None, con')))"

section \<open>The three report tiers\<close>

text \<open>\<open>int(node.status.capacity["memory"].rstrip("Ki")) / 1024\<close>\<close>

definition memory_capacity :: "node \<Rightarrow> exn + rat" where
  "memory_capacity nd =
     (case map_of (node_capacity nd) ''memory'' of
        None \<Rightarrow> Inl (KeyError ''memory'')
      | Some s \<Rightarrow>
          (case int_of_str (rstrip ''Ki'' s) of
             Inl e \<Rightarrow> Inl e
           | Inr k \<Rightarrow> int_truediv k 1024))"

text \<open>\<open>(used_memory / memory_capacity) * 100\<close>\<close>

definition utilization_percentage :: "int \<Rightarrow> rat \<Rightarrow> exn + pyfloat" where
  "utilization_percentage used_memory capacity =
     (case int_to_float used_memory of
        Inl e \<Rightarrow> Inl e
      | Inr u \<Rightarrow>
          (case float_div u capacity of
             Inl e \<Rightarrow> Inl e
           | Inr r \<Rightarrow> Inr (float_mul r (Finite 100))))"

text \<open>
  The loop of \<open>analyze_nodes\<close>: the rows of the table, the high-usage nodes and the
  console so far are the state.
\<close>

fun analyze_nodes_loop ::
  "cluster \<Rightarrow> node list \<Rightarrow> cell list list \<Rightarrow> string list \<Rightarrow> console \<Rightarrow>
   (exn \<times> console) + (cell list list \<times> string list \<times> console)" where
  "analyze_nodes_loop c [] node_rows high_usage_nodes con = Inr (node_rows, high_usage_nodes, con)"
| "analyze_nodes_loop c (nd # nodes) node_rows high_usage_nodes con =
     (case memory_capacity nd of
        Inl e \<Rightarrow> Inl (e, con)
      | Inr capacity \<Rightarrow>
          (case get_memory_utilization c ''node'' None (node_name nd) con of
             Inl f \<Rightarrow> Inl f
           | Inr (None, con') \<Rightarrow> analyze_nodes_loop c nodes node_rows high_usage_nodes con'
           | Inr (Some used_memory, con') \<Rightarrow>
               (case utilization_percentage used_memory capacity of
                  Inl e \<Rightarrow> Inl (e, con')
                | Inr percentage \<Rightarrow>
                    analyze_nodes_loop c nodes
                      (node_rows @
                         [[Text (node_name nd), Thousands \<lceil>capacity\<rceil>, Thousands used_memory,
                           Fixed2 percentage,
                           Text (if float_gt percentage 80 then ''High Usage'' else ''OK'')]])
                      (if float_gt percentage 80 then high_usage_nodes @ [node_name nd]
                       else high_usage_nodes)
                      con')))"

definition node_table :: "cell list list \<Rightarrow> table" where
  "node_table rs =
     \<lparr>title = ''Kubernetes Node Memory Utilization'',
      columns = [''Node Name'', ''Memory Capacity (Mi)'', ''Memory Usage (Mi)'',
                 ''Utilization (%)'', ''Status''],
      rows = rs\<rparr>"

definition analyze_nodes ::
  "cluster \<Rightarrow> console \<Rightarrow> (exn \<times> console) + (string list \<times> console)" where
  "analyze_nodes c con =
     (case list_node c of
        Inl e \<Rightarrow> Inl (e, con)
      | Inr nodes \<Rightarrow>
          (case analyze_nodes_loop c nodes [] [] con of
             Inl f \<Rightarrow> Inl f
           | Inr (node_rows, high_usage_nodes, con') \<Rightarrow>
               (case console_print c (PrintTable (node_table node_rows)) con' of
                  Inl f \<Rightarrow> Inl f
                | Inr con'' \<Rightarrow> Inr (high_usage_nodes, con''))))"

text \<open>The loop of \<open>analyze_pods_on_node\<close>.\<close>

fun analyze_pods_loop ::
  "cluster \<Rightarrow> pod list \<Rightarrow> pod option \<Rightarrow> int \<Rightarrow> cell list list \<Rightarrow> console \<Rightarrow>
   (exn \<times> console) + (pod option \<times> cell list list \<times> console)" where
  "analyze_pods_loop c [] highest_usage_pod highest_usage pod_rows con =
     Inr (highest_usage_pod, pod_rows, con)"
| "analyze_pods_loop c (p # pods) highest_usage_pod highest_usage pod_rows con =
     (case get_memory_utilization c ''pod'' (Some (pod_namespace p)) (pod_name p) con of
        Inl f \<Rightarrow> Inl f
      | Inr (None, con') \<Rightarrow> analyze_pods_loop c pods highest_usage_pod highest_usage pod_rows con'
      | Inr (Some pod_memory, con') \<Rightarrow>
          analyze_pods_loop c pods
            (if highest_usage < pod_memory then Some p else highest_usage_pod)
            (if highest_usage < pod_memory then pod_memory else highest_usage)
            (pod_rows @ [[Text (pod_name p), Text (pod_namespace p), Thousands pod_memory]])
            con')"

definition pod_table :: "string \<Rightarrow> cell list list \<Rightarrow> table" where
  "pod_table nname rs =
     \<lparr>title = ''Pods Memory Utilization on Node: '' @ nname,
      columns = [''Pod Name'', ''Namespace'', ''Memory Usage (Mi)''],
      rows = rs\<rparr>"

definition analyze_pods_on_node ::
  "cluster \<Rightarrow> string \<Rightarrow> console \<Rightarrow> (exn \<times> console) + (pod option \<times> console)" where
  "analyze_pods_on_node c nname con =
     (case list_pod_for_all_namespaces c (''spec.nodeName='' @ nname) of
        Inl e \<Rightarrow> Inl (e, con)
      | Inr pods \<Rightarrow>
          (case analyze_pods_loop c pods None 0 [] con of
             Inl f \<Rightarrow> Inl f
           | Inr (highest_usage_pod, pod_rows, con') \<Rightarrow>
               (case console_print c (PrintTable (pod_table nname pod_rows)) con' of
                  Inl f \<Rightarrow> Inl f
                | Inr con'' \<Rightarrow> Inr (highest_usage_pod, con''))))"

text \<open>The loop of \<open>analyze_controller\<close>.\<close>

fun analyze_controller_loop ::
  "cluster \<Rightarrow> pod list \<Rightarrow> cell list list \<Rightarrow> console \<Rightarrow>
   (exn \<times> console) + (cell list list \<times> console)" where
  "analyze_controller_loop c [] controller_rows con = Inr (controller_rows, con)"
| "analyze_controller_loop c (p # pods) controller_rows con =
     (case get_memory_utilization c ''pod'' (Some (pod_namespace p)) (pod_name p) con of
        Inl f \<Rightarrow> Inl f
      | Inr (None, con') \<Rightarrow> analyze_controller_loop c pods controller_rows con'
      | Inr (Some pod_memory, con') \<Rightarrow>
          analyze_controller_loop c pods
            (controller_rows @
               [[Text (pod_name p), OptText (pod_node_name p), Thousands pod_memory]])
            con')"

definition controller_table :: "string \<Rightarrow> string \<Rightarrow> cell list list \<Rightarrow> table" where
  "controller_table controller_kind controller_name rs =
     \<lparr>title = ''Memory Utilization for '' @ controller_kind @ '' '' @ controller_name,
      columns = [''Pod Name'', ''Node Name'', ''Memory Usage (Mi)''],
      rows = rs\<rparr>"

text \<open>The body of the \<open>try\<close> statement of \<open>analyze_controller\<close>.\<close>

definition analyze_controller_body ::
  "cluster \<Rightarrow> string \<Rightarrow> string \<Rightarrow> string \<Rightarrow> console \<Rightarrow> (exn \<times> console) + console" where
  "analyze_controller_body c controller_kind controller_name namespace con =
     (case fetch_pods_for_controller c controller_kind controller_name namespace of
        Inl e \<Rightarrow> Inl (e, con)
      | Inr controller_pods \<Rightarrow>
          (case analyze_controller_loop c controller_pods [] con of
             Inl f \<Rightarrow> Inl f
           | Inr (controller_rows, con') \<Rightarrow>
               console_print c
                 (PrintTable (controller_table controller_kind controller_name controller_rows))
                 con'))"

text \<open>
  \<open>analyze_controller\<close>: \<open>except Exception\<close> prints the error of the body, after
  what the body printed; an exception raised by that \<open>print\<close> leaves the function.
\<close>

definition analyze_controller ::
  "cluster \<Rightarrow> string \<Rightarrow> string \<Rightarrow> string \<Rightarrow> console \<Rightarrow> (exn \<times> console) + console" where
  "analyze_controller c controller_kind controller_name namespace con =
     (case analyze_controller_body c controller_kind controller_name namespace con of
        Inr con' \<Rightarrow> Inr con'
      | Inl (e, con') \<Rightarrow> console_print c (AnalyzeError controller_kind controller_name e) con')"

text \<open>
  One iteration of the loop of \<open>run\<close>, for one high-usage node. A pod object is
  true when it is not \<open>None\<close>; a kind or name is true when it is a non-empty string.
\<close>

definition run_node :: "cluster \<Rightarrow> string \<Rightarrow> console \<Rightarrow> (exn \<times> console) + console" where
  "run_node c nname con =
     (case analyze_pods_on_node c nname con of
        Inl f \<Rightarrow> Inl f
      | Inr (None, con') \<Rightarrow> Inr con'
      | Inr (Some highest_usage_pod, con') \<Rightarrow>
          (case get_controller_kind_and_name highest_usage_pod of
             (Some controller_kind, Some controller_name) \<Rightarrow>
               if controller_kind \<noteq> [] \<and> controller_name \<noteq> []
               then analyze_controller c controller_kind controller_name
                      (pod_namespace highest_usage_pod) con'
               else Inr con'
           | _ \<Rightarrow> Inr con'))"

fun run_loop :: "cluster \<Rightarrow> string list \<Rightarrow> console \<Rightarrow> (exn \<times> console) + console" where
  "run_loop c [] con = Inr con"
| "run_loop c (nname # high_usage_nodes) con =
     (case run_node c nname con of
        Inl f \<Rightarrow> Inl f
      | Inr con' \<Rightarrow> run_loop c high_usage_nodes con')"

text \<open>
  \<open>run\<close>: \<open>Inr\<close> is a run that completes, with everything it printed; \<open>Inl\<close> is an
  exception that leaves \<open>run\<close> and ends the process with a traceback, with what was
  printed before it.
\<close>

definition run :: "cluster \<Rightarrow> (exn \<times> console) + console" where
  "run c =
     (case analyze_nodes c [] of
        Inl f \<Rightarrow> Inl f
      | Inr (high_usage_nodes, con) \<Rightarrow> run_loop c high_usage_nodes con)"

text \<open>The usage of a pod as \<open>get_memory_utilization\<close> fetches it in the two pod loops.\<close>

definition pod_usage :: "cluster \<Rightarrow> pod \<Rightarrow> exn + int" where
  "pod_usage c p = fetch_memory c ''pod'' (Some (pod_namespace p)) (pod_name p)"

section \<open>A sample cluster\<close>

text \<open>
  Three nodes of 1000 MiB each, listed as \<open>node-a\<close>, \<open>node-c\<close>, \<open>node-b\<close>:
  \<open>node-a\<close> uses 801 MiB, \<open>node-b\<close> uses 800 MiB, and the metrics of \<open>node-c\<close>
  cannot be fetched. Four pods run on \<open>node-a\<close>, using 50, 120,
  120 and 30 MiB; the second is owned by a Job. On \<open>node-z\<close> every pod uses 0 MiB. The
  only ReplicaSet of the namespace belongs to the Deployment \<open>api\<close>.

  Three more nodes have metrics but are not listed: \<open>node-d\<close> with 2000 MiB, of
  which 500 are used; \<open>node-x\<close> with 8319999999999999 Ki, of which 6500000000000 MiB
  are used; and \<open>node-0\<close>, whose capacity is \<open>0Ki\<close>.
\<close>

definition node_metrics_doc :: "string \<Rightarrow> string \<Rightarrow> json" where
  "node_metrics_doc name mem =
     JObj [(''apiVersion'', JStr ''metrics.k8s.io/v1beta1''),
           (''kind'', JStr ''NodeMetrics''),
           (''metadata'', JObj [(''name'', JStr name)]),
           (''timestamp'', JStr ''2024-05-01T10:00:00Z''),
           (''window'', JStr ''30s''),
           (''usage'', JObj [(''cpu'', JStr ''250m''), (''memory'', JStr mem)])]"

definition container_doc :: "string \<Rightarrow> json" where
  "container_doc mem =
     JObj [(''name'', JStr ''main''),
           (''usage'', JObj [(''cpu'', JStr ''10m''), (''memory'', JStr mem)])]"

definition pod_metrics_doc :: "string \<Rightarrow> string list \<Rightarrow> json" where
  "pod_metrics_doc name mems =
     JObj [(''apiVersion'', JStr ''metrics.k8s.io/v1beta1''),
           (''kind'', JStr ''PodMetrics''),
           (''metadata'', JObj [(''name'', JStr name)]),
           (''timestamp'', JStr ''2024-05-01T10:00:00Z''),
           (''window'', JStr ''30s''),
           (''containers'', JArr (map container_doc mems))]"

definition sample_pod :: "string \<Rightarrow> string \<Rightarrow> string \<Rightarrow> string \<Rightarrow> pod" where
  "sample_pod name nname okind oname =
     \<lparr>pod_name = name, pod_namespace = ''default'',
      pod_owner_references = Some [\<lparr>owner_kind = okind, owner_name = oname\<rparr>],
      pod_node_name = Some nname\<rparr>"

definition node_a :: node where
  "node_a = \<lparr>node_name = ''node-a'', node_capacity = [(''cpu'', ''4''), (''memory'', ''1024000Ki'')]\<rparr>"

definition node_b :: node where
  "node_b = \<lparr>node_name = ''node-b'', node_capacity = [(''cpu'', ''4''), (''memory'', ''1024000Ki'')]\<rparr>"

definition node_c :: node where
  "node_c = \<lparr>node_name = ''node-c'', node_capacity = [(''cpu'', ''4''), (''memory'', ''1024000Ki'')]\<rparr>"

definition node_d :: node where
  "node_d = \<lparr>node_name = ''node-d'', node_capacity = [(''cpu'', ''8''), (''memory'', ''2048000Ki'')]\<rparr>"

definition node_x :: node where
  "node_x =
     \<lparr>node_name = ''node-x'', node_capacity = [(''cpu'', ''4''), (''memory'', ''8319999999999999Ki'')]\<rparr>"

definition node_0 :: node where
  "node_0 = \<lparr>node_name = ''node-0'', node_capacity = [(''cpu'', ''4''), (''memory'', ''0Ki'')]\<rparr>"

definition sample_nodes :: "node list" where
  "sample_nodes = [node_a, node_c, node_b]"

definition pods_on_a :: "pod list" where
  "pods_on_a =
     [sample_pod ''p1'' ''node-a'' ''ReplicaSet'' ''api-5d9c'',
      sample_pod ''p2'' ''node-a'' ''Job'' ''backup'',
      sample_pod ''p3'' ''node-a'' ''ReplicaSet'' ''api-5d9c'',
      sample_pod ''p4'' ''node-a'' ''ReplicaSet'' ''api-5d9c'']"

definition pods_on_z :: "pod list" where
  "pods_on_z =
     [sample_pod ''z1'' ''node-z'' ''ReplicaSet'' ''api-5d9c'',
      sample_pod ''z2'' ''node-z'' ''ReplicaSet'' ''api-5d9c'']"

definition api_replicaset :: controller where
  "api_replicaset =
     \<lparr>ctl_name = ''api-5d9c'',
      ctl_owner_references = Some [\<lparr>owner_kind = ''Deployment'', owner_name = ''api''\<rparr>],
      ctl_match_labels = Some [(''app'', ''api'')]\<rparr>"

text \<open>
  The console of the sample prints every table and every error line but two: as
  \<open>rich\<close> does, it refuses the line of \<open>get_memory_utilization\<close> for the resource
  type \<open>[/x]\<close> and the line of \<open>analyze_controller\<close> for the controller kind
  \<open>[/x]\<close>, in which \<open>[/x]\<close> closes a tag that was not opened.
\<close>

definition sample_print_error :: "printed \<Rightarrow> exn option" where
  "sample_print_error item =
     (case item of
        FetchError resource_type name e \<Rightarrow>
          if resource_type = ''[/x]''
          then Some (MarkupError ''closing tag '[/x]' at position 36 doesn't match any open tag'')
          else None
      | AnalyzeError controller_kind controller_name e \<Rightarrow>
          if controller_kind = ''[/x]''
          then Some (MarkupError ''closing tag '[/x]' at position 26 doesn't match any open tag'')
          else None
      | PrintTable t \<Rightarrow> None)"

definition sample_cluster :: cluster where
  "sample_cluster =
     \<lparr>list_node = Inr sample_nodes,
      list_pod_for_all_namespaces =
        (\<lambda>selector. if selector = ''spec.nodeName=node-a'' then Inr pods_on_a
                    else if selector = ''spec.nodeName=node-z'' then Inr pods_on_z
                    else Inr []),
      list_namespaced_pod = (\<lambda>namespace selector. Inr []),
      read_namespaced_replica_set =
        (\<lambda>name namespace. if name = ''api-5d9c'' then Inr api_replicaset
                          else Inl (ApiException ''Not Found'')),
      read_namespaced_stateful_set = (\<lambda>name namespace. Inl (ApiException ''Not Found'')),
      read_namespaced_daemon_set = (\<lambda>name namespace. Inl (ApiException ''Not Found'')),
      list_namespaced_replica_set = (\<lambda>namespace. Inr [api_replicaset]),
      get_cluster_custom_object =
        (\<lambda>name. if name = ''node-a'' then Inr (node_metrics_doc name ''801Mi'')
                else if name = ''node-b'' then Inr (node_metrics_doc name ''800Mi'')
                else if name = ''node-d'' then Inr (node_metrics_doc name ''500Mi'')
                else if name = ''node-x'' then Inr (node_metrics_doc name ''6500000000000Mi'')
                else if name = ''node-0'' then Inr (node_metrics_doc name ''100Mi'')
                else Inl (ApiException ''Not Found'')),
      get_namespaced_custom_object =
        (\<lambda>namespace name.
           if name = ''p1'' then Inr (pod_metrics_doc name [''50Mi''])
           else if name = ''p2'' then Inr (pod_metrics_doc name [''100M'', ''20M''])
           else if name = ''p3'' then Inr (pod_metrics_doc name [''120Mi''])
           else if name = ''p4'' then Inr (pod_metrics_doc name [''30Mi''])
           else if name = ''p5'' then Inr (pod_metrics_doc name [''100M'', ''200M''])
           else if name = ''z1'' \<or> name = ''z2'' then Inr (pod_metrics_doc name [''0Mi''])
           else Inl (ApiException ''Not Found'')),
      print_error = sample_print_error\<rparr>"

section \<open>Properties of the float model\<close>

lemma bit_length_upper: "n < 2 ^ bit_length n"
proof (induction n rule: bit_length.induct)
  case (1 n)
  show ?case
  proof (cases "n \<le> 0")
    case True
    then show ?thesis by (simp add: bit_length.simps)
  next
    case False
    then have "n div 2 < 2 ^ bit_length (n div 2)" using 1 by simp
    then have "n < 2 * 2 ^ bit_length (n div 2)" by linarith
    then show ?thesis using False by (simp add: bit_length.simps[of n])
  qed
qed

lemma bit_length_lower: "0 < n \<Longrightarrow> 2 ^ bit_length n \<le> 2 * n"
proof (induction n rule: bit_length.induct)
  case (1 n)
  show ?case
  proof (cases "n div 2 = 0")
    case True
    then have "n = 1" using 1(2) by linarith
    then show ?thesis by (simp add: bit_length.simps[of 1] bit_length.simps[of 0])
  next
    case False
    then have pos: "0 < n div 2" using 1(2) by linarith
    then have "2 ^ bit_length (n div 2) \<le> 2 * (n div 2)" using 1 by simp
    then have "2 * 2 ^ bit_length (n div 2) \<le> 2 * n" by linarith
    then show ?thesis using 1(2) by (simp add: bit_length.simps[of n])
  qed
qed

lemma float_exponent_bounds:
  assumes "x \<noteq> 0"
  shows "2 powi float_exponent x \<le> \<bar>x\<bar>" and "\<bar>x\<bar> < 2 powi (float_exponent x + 1)"
proof -
  obtain p q where pq: "quotient_of \<bar>x\<bar> = (p, q)" by (cases "quotient_of \<bar>x\<bar>")
  then have q: "0 < q" and x: "\<bar>x\<bar> = of_int p / of_int q"
    by (auto dest: quotient_of_denom_pos quotient_of_div)
  have "0 < \<bar>x\<bar>" using assms by simp
  then have p: "0 < p" using x q by (simp add: zero_less_divide_iff)
  define d where "d = int (bit_length p) - int (bit_length q)"
  have e: "float_exponent x = (if 2 powi d \<le> \<bar>x\<bar> then d else d - 1)"
    by (simp add: float_exponent_def pq d_def Let_def)
  have qr: "(0::rat) < of_int q" using q by simp
  have pr: "(0::rat) < of_int p" using p by simp
  have up: "(of_int p :: rat) < 2 ^ bit_length p"
    using bit_length_upper[of p] by (metis of_int_less_iff of_int_numeral of_int_power)
  have lq: "(2::rat) ^ bit_length q \<le> 2 * of_int q"
    using bit_length_lower[OF q] by (metis of_int_le_iff of_int_numeral of_int_power of_int_mult)
  have lp: "(2::rat) ^ bit_length p \<le> 2 * of_int p"
    using bit_length_lower[OF p] by (metis of_int_le_iff of_int_numeral of_int_power of_int_mult)
  have uq: "(of_int q :: rat) < 2 ^ bit_length q"
    using bit_length_upper[of q] by (metis of_int_less_iff of_int_numeral of_int_power)
  have dd: "(2::rat) powi d = 2 ^ bit_length p / 2 ^ bit_length q"
    by (simp add: d_def power_int_diff)
  have upper: "\<bar>x\<bar> < 2 powi (d + 1)"
  proof -
    have "of_int p * 2 ^ bit_length q \<le> (of_int p :: rat) * (2 * of_int q)"
      using lq pr by (intro mult_left_mono) simp_all
    also have "\<dots> < 2 ^ bit_length p * (2 * of_int q)"
      using up qr by (intro mult_strict_right_mono) simp_all
    finally have "of_int p * 2 ^ bit_length q < (2::rat) ^ bit_length p * (2 * of_int q)" .
    then have "of_int p / of_int q < (2::rat) * (2 ^ bit_length p / 2 ^ bit_length q)"
      using qr by (simp add: field_simps)
    then show ?thesis by (simp add: x dd power_int_add mult.commute)
  qed
  have lower: "2 powi (d - 1) < \<bar>x\<bar>"
  proof -
    have "(2::rat) ^ bit_length p * of_int q \<le> (2 * of_int p) * of_int q"
      using lp qr by (intro mult_right_mono) simp_all
    also have "\<dots> < (2 * of_int p) * 2 ^ bit_length q"
      using uq pr by (intro mult_strict_left_mono) simp_all
    finally have "(2::rat) ^ bit_length p * of_int q < 2 * of_int p * 2 ^ bit_length q" .
    then have "(2 ^ bit_length p / 2 ^ bit_length q) / 2 < (of_int p / of_int q :: rat)"
      using qr by (simp add: field_simps)
    then show ?thesis by (simp add: x dd power_int_diff mult.commute)
  qed
  show "2 powi float_exponent x \<le> \<bar>x\<bar>" using lower by (simp add: e)
  show "\<bar>x\<bar> < 2 powi (float_exponent x + 1)" using upper by (auto simp add: e)
qed

lemma float_exponent_unique:
  assumes "2 powi e \<le> \<bar>x\<bar>" and "\<bar>x\<bar> < 2 powi (e + 1)"
  shows "float_exponent x = e"
proof -
  have "(0::rat) < 2 powi e" by simp
  then have "0 < \<bar>x\<bar>" using assms(1) by (rule less_le_trans)
  then have nz: "x \<noteq> 0" by simp
  define f where "f = float_exponent x"
  have lo: "2 powi f \<le> \<bar>x\<bar>" and hi: "\<bar>x\<bar> < 2 powi (f + 1)"
    using float_exponent_bounds[OF nz] by (simp_all add: f_def)
  have "\<not> e + 1 \<le> f"
  proof
    assume "e + 1 \<le> f"
    then have "(2::rat) powi (e + 1) \<le> 2 powi f" by (intro power_int_increasing) simp_all
    then show False using lo assms(2) by linarith
  qed
  moreover have "\<not> f + 1 \<le> e"
  proof
    assume "f + 1 \<le> e"
    then have "(2::rat) powi (f + 1) \<le> 2 powi e" by (intro power_int_increasing) simp_all
    then show False using hi assms(1) by linarith
  qed
  ultimately show ?thesis by (simp add: f_def)
qed

lemma round_double_exponent:
  assumes "2 powi e \<le> \<bar>x\<bar>" and "\<bar>x\<bar> < 2 powi (e + 1)" and "- 1022 \<le> e"
  shows "round_double x = of_int (round_half_even (x / 2 powi (e - 52))) * 2 powi (e - 52)"
proof -
  have "(0::rat) < 2 powi e" by simp
  then have "0 < \<bar>x\<bar>" using assms(1) by (rule less_le_trans)
  then have nz: "x \<noteq> 0" by simp
  show ?thesis
    using nz assms(3)
    by (simp add: round_double_def float_exponent_unique[OF assms(1,2)] Let_def max_def)
qed

lemma round_half_even_of_int: "round_half_even (of_int z) = z"
  by (simp add: round_half_even_def)

lemma round_double_exact:
  assumes "x = of_int m * 2 powi k" and "\<bar>m\<bar> < 2 ^ 53" and "- 1074 \<le> k"
  shows "round_double x = x"
proof (cases "x = 0")
  case True
  then show ?thesis by (simp add: round_double_def)
next
  case False
  define e where "e = max (float_exponent x) (- 1022)"
  have lo: "2 powi float_exponent x \<le> \<bar>x\<bar>"
    using float_exponent_bounds(1)[OF False] by simp
  have "\<bar>x\<bar> = of_int \<bar>m\<bar> * 2 powi k"
    by (simp add: assms(1) abs_mult)
  also have "\<dots> < 2 ^ 53 * 2 powi k"
  proof (intro mult_strict_right_mono)
    have "(of_int \<bar>m\<bar> :: rat) < of_int (2 ^ 53)" using assms(2) by (simp only: of_int_less_iff)
    then show "(of_int \<bar>m\<bar> :: rat) < 2 ^ 53" by simp
  qed simp
  also have "\<dots> = 2 powi (53 + k)"
    by (simp add: power_int_add)
  finally have "(2::rat) powi float_exponent x < 2 powi (53 + k)" using lo by linarith
  have "float_exponent x < 53 + k"
  proof (rule ccontr)
    assume "\<not> float_exponent x < 53 + k"
    then have "53 + k \<le> float_exponent x" by simp
    then have "(2::rat) powi (53 + k) \<le> 2 powi float_exponent x"
      by (intro power_int_increasing) simp_all
    then show False using \<open>(2::rat) powi float_exponent x < 2 powi (53 + k)\<close> by linarith
  qed
  then have "e < 53 + k" using assms(3) by (simp add: e_def)
  define j where "j = nat (k - (e - 52))"
  have j: "k - (e - 52) = int j" using \<open>e < 53 + k\<close> by (simp add: j_def)
  have "x / 2 powi (e - 52) = of_int m * 2 powi (k - (e - 52))"
    by (simp add: assms(1) power_int_diff)
  also have "\<dots> = of_int (m * 2 ^ j)"
    by (simp add: j)
  finally have q: "x / 2 powi (e - 52) = of_int (m * 2 ^ j)" .
  have "round_double x = of_int (round_half_even (x / 2 powi (e - 52))) * 2 powi (e - 52)"
    using False by (simp add: round_double_def Let_def e_def)
  also have "\<dots> = of_int (m * 2 ^ j) * 2 powi (e - 52)"
    by (simp only: q round_half_even_of_int)
  also have "\<dots> = x"
    using q by (simp add: field_simps)
  finally show ?thesis .
qed

lemma round_half_even_lower: "of_int z \<le> y \<Longrightarrow> z \<le> round_half_even y"
proof -
  assume "of_int z \<le> y"
  then have "z \<le> \<lfloor>y\<rfloor>" by (simp add: le_floor_iff)
  then show ?thesis by (simp add: round_half_even_def Let_def)
qed

lemma round_half_even_upper: "y \<le> of_int z \<Longrightarrow> round_half_even y \<le> z"
proof (cases "y = of_int z")
  case True
  then show ?thesis by (simp add: round_half_even_of_int)
next
  case False
  assume "y \<le> of_int z"
  then have "y < of_int z" using False by simp
  then have "\<lfloor>y\<rfloor> < z" by (simp add: floor_less_iff)
  then show ?thesis by (simp add: round_half_even_def Let_def)
qed

lemma round_double_lower:
  assumes "0 < x" and "2 powi e \<le> x" and "- 1022 \<le> e"
  shows "2 powi e \<le> round_double x"
proof -
  define f where "f = float_exponent x"
  have nz: "x \<noteq> 0" using assms(1) by simp
  have lo: "2 powi f \<le> x" and hi: "x < 2 powi (f + 1)"
    using float_exponent_bounds[OF nz] assms(1) by (simp_all add: f_def)
  have "e \<le> f"
  proof (rule ccontr)
    assume "\<not> e \<le> f"
    then have "f + 1 \<le> e" by simp
    then have "(2::rat) powi (f + 1) \<le> 2 powi e" by (intro power_int_increasing) simp_all
    then show False using hi assms(2) by linarith
  qed
  then have m: "max f (- 1022) = f" using assms(3) by simp
  define u :: rat where "u = 2 powi (f - 52)"
  have u: "0 < u" by (simp add: u_def)
  have eq: "of_int (2 ^ 52) * u = 2 powi f"
    by (simp add: u_def power_int_diff)
  have rd: "round_double x = of_int (round_half_even (x / u)) * u"
    using nz m by (simp add: round_double_def Let_def u_def f_def)
  have "of_int (2 ^ 52) \<le> x / u"
    using lo u eq by (simp add: pos_le_divide_eq)
  then have "2 ^ 52 \<le> round_half_even (x / u)" by (rule round_half_even_lower)
  then have "(of_int (2 ^ 52) :: rat) \<le> of_int (round_half_even (x / u))"
    by (simp only: of_int_le_iff)
  then have "of_int (2 ^ 52) * u \<le> of_int (round_half_even (x / u)) * u"
    using u by (intro mult_right_mono) simp_all
  then have "2 powi f \<le> round_double x"
    unfolding eq rd .
  moreover have "(2::rat) powi e \<le> 2 powi f"
    using \<open>e \<le> f\<close> by (intro power_int_increasing) simp_all
  ultimately show ?thesis by linarith
qed

lemma round_double_upper:
  assumes "0 < x" and "x \<le> 2 powi e" and "- 1021 \<le> e"
  shows "round_double x \<le> 2 powi e"
proof (cases "x = 2 powi e")
  case True
  then show ?thesis using round_double_exact[of x 1 e] assms(3) by simp
next
  case False
  then have lt: "x < 2 powi e" using assms(2) by simp
  define f where "f = float_exponent x"
  define g where "g = max f (- 1022)"
  have nz: "x \<noteq> 0" using assms(1) by simp
  have lo: "2 powi f \<le> x" and hi: "x < 2 powi (f + 1)"
    using float_exponent_bounds[OF nz] assms(1) by (simp_all add: f_def)
  have "f + 1 \<le> e"
  proof (rule ccontr)
    assume "\<not> f + 1 \<le> e"
    then have "e \<le> f" by simp
    then have "(2::rat) powi e \<le> 2 powi f" by (intro power_int_increasing) simp_all
    then show False using lo lt by linarith
  qed
  then have ge: "g + 1 \<le> e" using assms(3) by (simp add: g_def)
  have "(2::rat) powi (f + 1) \<le> 2 powi (g + 1)"
    by (intro power_int_increasing) (simp_all add: g_def)
  then have hi': "x < 2 powi (g + 1)" using hi by linarith
  define u :: rat where "u = 2 powi (g - 52)"
  have u: "0 < u" by (simp add: u_def)
  have eq: "of_int (2 ^ 53) * u = 2 powi (g + 1)"
    by (simp add: u_def power_int_diff power_int_add)
  have rd: "round_double x = of_int (round_half_even (x / u)) * u"
    using nz by (simp add: round_double_def Let_def u_def f_def g_def)
  have "x / u \<le> of_int (2 ^ 53)"
    using hi' u eq by (simp add: pos_divide_le_eq)
  then have "round_half_even (x / u) \<le> 2 ^ 53" by (rule round_half_even_upper)
  then have "(of_int (round_half_even (x / u)) :: rat) \<le> of_int (2 ^ 53)"
    by (simp only: of_int_le_iff)
  then have "of_int (round_half_even (x / u)) * u \<le> of_int (2 ^ 53) * u"
    using u by (intro mult_right_mono) simp_all
  then have "round_double x \<le> 2 powi (g + 1)"
    unfolding eq rd .
  moreover have "(2::rat) powi (g + 1) \<le> 2 powi e"
    using ge by (intro power_int_increasing) simp_all
  ultimately show ?thesis by linarith
qed

lemma round_double_pos: "2 powi (- 1022) \<le> x \<Longrightarrow> 0 < round_double x"
proof -
  assume x: "2 powi (- 1022) \<le> x"
  have p: "(0::rat) < 2 powi (- 1022)" by simp
  then have "0 < x" using x by (rule less_le_trans)
  then have "2 powi (- 1022) \<le> round_double x" using x by (rule round_double_lower) simp
  with p show ?thesis by (rule less_le_trans)
qed

lemma round_double_nonneg: "0 \<le> x \<Longrightarrow> 0 \<le> round_double x"
proof (cases "x = 0")
  case True
  then show ?thesis by (simp add: round_double_def)
next
  case False
  assume "0 \<le> x"
  define u :: rat where "u = 2 powi (max (float_exponent x) (- 1022) - 52)"
  have u: "0 < u" by (simp add: u_def)
  have rd: "round_double x = of_int (round_half_even (x / u)) * u"
    using False by (simp add: round_double_def Let_def u_def)
  have "of_int 0 \<le> x / u" using \<open>0 \<le> x\<close> u by simp
  then have "0 \<le> round_half_even (x / u)" by (rule round_half_even_lower)
  then show ?thesis using u by (simp add: rd)
qed

lemma round_double_nonpos: "x \<le> 0 \<Longrightarrow> round_double x \<le> 0"
proof (cases "x = 0")
  case True
  then show ?thesis by (simp add: round_double_def)
next
  case False
  assume "x \<le> 0"
  define u :: rat where "u = 2 powi (max (float_exponent x) (- 1022) - 52)"
  have u: "0 < u" by (simp add: u_def)
  have rd: "round_double x = of_int (round_half_even (x / u)) * u"
    using False by (simp add: round_double_def Let_def u_def)
  have "x / u \<le> of_int 0" using \<open>x \<le> 0\<close> u by (simp add: divide_le_0_iff)
  then have "round_half_even (x / u) \<le> 0" by (rule round_half_even_upper)
  then show ?thesis using u by (simp add: rd mult_le_0_iff)
qed

lemma floor_rat_numeral: "\<lfloor>(numeral a :: rat) / numeral b\<rfloor> = numeral a div numeral b"
  by (metis floor_divide_of_int_eq of_int_numeral)

lemma int_to_float_exact:
  assumes "\<bar>n\<bar> < 2 ^ 53"
  shows "int_to_float n = Inr (of_int n)"
proof -
  have r: "round_double (of_int n) = of_int n"
    using round_double_exact[of "of_int n" n 0] assms by simp
  have "\<bar>of_int n :: rat\<bar> < of_int (2 ^ 53)"
    using assms by (simp only: of_int_less_iff flip: of_int_abs)
  then have "\<bar>of_int n :: rat\<bar> < 2 ^ 1024" by simp
  then show ?thesis by (simp add: int_to_float_def r float_max_bound_def)
qed

lemma int_to_float_overflow:
  assumes "2 ^ 1024 \<le> n"
  shows "int_to_float n = Inl OverflowError"
proof -
  have "(of_int (2 ^ 1024) :: rat) \<le> of_int n" using assms by (simp only: of_int_le_iff)
  then have le: "(2::rat) powi 1024 \<le> of_int n" by simp
  have "(0::rat) < 2 powi 1024" by simp
  then have pos: "(0::rat) < of_int n" using le by (rule less_le_trans)
  have "(2::rat) powi 1024 \<le> round_double (of_int n)"
    using pos le by (rule round_double_lower) simp
  then show ?thesis by (simp add: int_to_float_def float_max_bound_def Let_def)
qed

lemma int_to_float_in_range:
  assumes "0 \<le> n" and "n < 2 ^ 1023"
  shows "\<exists>x. int_to_float n = Inr x \<and> 0 \<le> x \<and> (0 < n \<longrightarrow> 0 < x)"
proof (cases "n = 0")
  case True
  then show ?thesis by (simp add: int_to_float_def round_double_def float_max_bound_def)
next
  case False
  then have pos: "(0::rat) < of_int n" using assms(1) by simp
  have "n \<le> 2 ^ 1023" using assms(2) by simp
  then have "(of_int n :: rat) \<le> of_int (2 ^ 1023)" by (simp only: of_int_le_iff)
  then have "(of_int n :: rat) \<le> 2 powi 1023" by simp
  then have "round_double (of_int n) \<le> 2 powi 1023" by (rule round_double_upper[OF pos]) simp
  moreover have "0 < round_double (of_int n)"
  proof (rule round_double_pos)
    have "1 \<le> n" using False assms(1) by simp
    then have "(of_int 1 :: rat) \<le> of_int n" by (simp only: of_int_le_iff)
    moreover have "(2::rat) powi (- 1022) \<le> 2 powi 0" by (intro power_int_increasing) simp_all
    ultimately show "(2::rat) powi (- 1022) \<le> of_int n" by simp
  qed
  ultimately show ?thesis by (simp add: int_to_float_def float_max_bound_def Let_def)
qed

lemma int_to_float_2_63: "int_to_float 9223372036854775807 = Inr 9223372036854775808"
proof -
  have "round_double 9223372036854775807 = 9223372036854775808"
    by (subst round_double_exponent[of 62])
      (simp_all add: round_half_even_def Let_def floor_rat_numeral)
  then show ?thesis
    using round_double_exponent[of 62 "of_int 9223372036854775807"]
    by (simp add: int_to_float_def float_max_bound_def)
qed

lemma round_half_even_error: "\<bar>of_int (round_half_even y) - y\<bar> \<le> 1 / 2"
proof -
  define f where "f = \<lfloor>y\<rfloor>"
  have "of_int f \<le> y" "y < of_int f + 1"
    using floor_correct[of y] by (simp_all add: f_def)
  then show ?thesis
    unfolding round_half_even_def Let_def f_def[symmetric]
    by (auto simp: abs_le_iff)
qed

lemma round_double_error:
  assumes "2 powi (- 1022) \<le> x"
  shows "x * (1 - 1 / 2 ^ 53) \<le> round_double x" and "round_double x \<le> x * (1 + 1 / 2 ^ 53)"
proof -
  have c: "x * (1 - 1 / 2 ^ 53) \<le> round_double x \<and> round_double x \<le> x * (1 + 1 / 2 ^ 53)"
  proof -
    have "(0::rat) < 2 powi (- 1022)" by simp
    then have pos: "0 < x" using assms by (rule less_le_trans)
    then have nz: "x \<noteq> 0" by simp
    define e where "e = float_exponent x"
    define u :: rat where "u = 2 powi (e - 52)"
    have u: "0 < u" by (simp add: u_def)
    have lo: "2 powi e \<le> x" and hi: "x < 2 powi (e + 1)"
      using float_exponent_bounds[OF nz] pos by (simp_all add: e_def)
    have "- 1022 \<le> e"
    proof (rule ccontr)
      assume "\<not> - 1022 \<le> e"
      then have "e + 1 \<le> - 1022" by simp
      then have "(2::rat) powi (e + 1) \<le> 2 powi (- 1022)" by (intro power_int_increasing) simp_all
      then show False using hi assms by linarith
    qed
    then have m: "max e (- 1022) = e" by simp
    have rd: "round_double x = of_int (round_half_even (x / u)) * u"
      using nz m by (simp add: round_double_def Let_def u_def e_def)
    define d where "d = x / 2 ^ 53"
    have "\<bar>of_int (round_half_even (x / u)) - x / u\<bar> * u \<le> 1 / 2 * u"
      using round_half_even_error[of "x / u"] u by (intro mult_right_mono) simp_all
    moreover have "\<bar>of_int (round_half_even (x / u)) - x / u\<bar> * u = \<bar>round_double x - x\<bar>"
    proof -
      have "\<bar>of_int (round_half_even (x / u)) - x / u\<bar> * u =
            \<bar>(of_int (round_half_even (x / u)) - x / u) * u\<bar>"
        using u by (simp add: abs_mult)
      also have "(of_int (round_half_even (x / u)) - x / u) * u = round_double x - x"
        using u by (simp add: rd field_simps)
      finally show ?thesis .
    qed
    moreover have "1 / 2 * u = 2 powi e / 2 ^ 53"
      by (simp add: u_def power_int_diff)
    ultimately have "\<bar>round_double x - x\<bar> \<le> 2 powi e / 2 ^ 53" by simp
    moreover have "(2::rat) powi e / 2 ^ 53 \<le> d"
      unfolding d_def using lo by (intro divide_right_mono) simp_all
    ultimately have b: "\<bar>round_double x - x\<bar> \<le> d" by linarith
    then have g: "x - d \<le> round_double x \<and> round_double x \<le> x + d"
      by linarith
    have eq1: "x * (1 - 1 / 2 ^ 53) = x - d" by (simp add: right_diff_distrib d_def)
    have eq2: "x * (1 + 1 / 2 ^ 53) = x + d" by (simp add: distrib_left d_def)
    show ?thesis unfolding eq1 eq2 by (rule g)
  qed
  from c show "x * (1 - 1 / 2 ^ 53) \<le> round_double x" by (rule conjunct1)
  from c show "round_double x \<le> x * (1 + 1 / 2 ^ 53)" by (rule conjunct2)
qed

subsection \<open>The test against 80\<close>

lemma round_half_even_above_half:
  assumes "of_int z + 1 / 2 < y"
  shows "z + 1 \<le> round_half_even y"
proof -
  have "of_int z \<le> y" using assms by simp
  then have f: "z \<le> \<lfloor>y\<rfloor>" by (simp add: le_floor_iff)
  show ?thesis
  proof (cases "z = \<lfloor>y\<rfloor>")
    case True
    then have "1 / 2 < y - of_int \<lfloor>y\<rfloor>" using assms by simp
    then show ?thesis using True by (simp add: round_half_even_def Let_def)
  next
    case False
    then have "z + 1 \<le> \<lfloor>y\<rfloor>" using f by simp
    then show ?thesis by (simp add: round_half_even_def Let_def)
  qed
qed

lemma round_half_even_below_half:
  assumes "y \<le> of_int z + 1 / 2" and "y < of_int z + 1 / 2 \<or> even z"
  shows "round_half_even y \<le> z"
proof -
  have "y < of_int (z + 1)" using assms(1) by simp
  then have "\<lfloor>y\<rfloor> < z + 1" by (simp only: floor_less_iff)
  then have f: "\<lfloor>y\<rfloor> \<le> z" by simp
  show ?thesis
  proof (cases "z = \<lfloor>y\<rfloor>")
    case True
    then have "y - of_int \<lfloor>y\<rfloor> \<le> 1 / 2" using assms(1) by simp
    moreover have "y - of_int \<lfloor>y\<rfloor> < 1 / 2 \<or> even \<lfloor>y\<rfloor>" using assms(2) True by auto
    ultimately show ?thesis using True by (auto simp: round_half_even_def Let_def)
  next
    case False
    then have "\<lfloor>y\<rfloor> + 1 \<le> z" using f by simp
    then show ?thesis by (simp add: round_half_even_def Let_def)
  qed
qed

lemma round_double_threshold_up:
  assumes "14411518807585589 / 2 ^ 54 < q"
  shows "7205759403792795 / 2 ^ 53 \<le> round_double q"
proof (cases "1 \<le> q")
  case True
  then have "0 < q" "2 powi 0 \<le> q" by simp_all
  then have "2 powi 0 \<le> round_double q" by (rule round_double_lower) simp
  then have "1 \<le> round_double q" by simp
  moreover have "(7205759403792795 / 2 ^ 53 :: rat) \<le> 1" by simp
  ultimately show ?thesis by linarith
next
  case False
  have "(1 / 2 :: rat) \<le> 14411518807585589 / 2 ^ 54" by simp
  then have lo: "2 powi (- 1) \<le> \<bar>q\<bar>" using assms by (simp add: power_int_minus)
  have hi: "\<bar>q\<bar> < 2 powi (- 1 + 1)" using False assms by simp
  have rd: "round_double q = of_int (round_half_even (q / 2 powi (- 1 - 52))) * 2 powi (- 1 - 52)"
    using lo hi by (rule round_double_exponent) simp
  have u: "(2::rat) powi (- 1 - 52) = 1 / 2 ^ 53" by (simp add: power_int_minus)
  have "of_int 7205759403792794 + 1 / 2 < q * 2 ^ 53"
    using assms by (simp add: field_simps)
  then have "7205759403792794 + 1 \<le> round_half_even (q * 2 ^ 53)"
    by (rule round_half_even_above_half)
  then have "(of_int 7205759403792795 :: rat) \<le> of_int (round_half_even (q * 2 ^ 53))"
    by (simp only: of_int_le_iff)
  then have "of_int 7205759403792795 / 2 ^ 53 \<le> of_int (round_half_even (q * 2 ^ 53)) / (2 ^ 53 :: rat)"
    by (intro divide_right_mono) simp_all
  then show ?thesis unfolding rd u by simp
qed

lemma round_double_threshold_down:
  assumes "q \<le> 14411518807585589 / 2 ^ 54"
  shows "round_double q \<le> 7205759403792794 / 2 ^ 53"
proof (cases "q \<le> 0")
  case True
  then have "round_double q \<le> 0" by (rule round_double_nonpos)
  then show ?thesis by simp
next
  case pos: False
  show ?thesis
  proof (cases "q \<le> 1 / 2")
    case True
    then have "0 < q" "q \<le> 2 powi (- 1)" using pos by (simp_all add: power_int_minus)
    then have "round_double q \<le> 2 powi (- 1)" by (rule round_double_upper) simp
    then have "round_double q \<le> 1 / 2" by (simp add: power_int_minus)
    moreover have "(1 / 2 :: rat) \<le> 7205759403792794 / 2 ^ 53" by simp
    ultimately show ?thesis by linarith
  next
    case False
    then have lo: "2 powi (- 1) \<le> \<bar>q\<bar>" by (simp add: power_int_minus)
    have "(14411518807585589 / 2 ^ 54 :: rat) < 1" by simp
    then have hi: "\<bar>q\<bar> < 2 powi (- 1 + 1)" using assms pos by simp
    have rd: "round_double q = of_int (round_half_even (q / 2 powi (- 1 - 52))) * 2 powi (- 1 - 52)"
      using lo hi by (rule round_double_exponent) simp
    have u: "(2::rat) powi (- 1 - 52) = 1 / 2 ^ 53" by (simp add: power_int_minus)
    have "q * 2 ^ 53 \<le> of_int 7205759403792794 + 1 / 2"
      using assms by (simp add: field_simps)
    moreover have "even (7205759403792794 :: int)" by simp
    ultimately have "round_half_even (q * 2 ^ 53) \<le> 7205759403792794"
      by (intro round_half_even_below_half) simp_all
    then have "(of_int (round_half_even (q * 2 ^ 53)) :: rat) \<le> of_int 7205759403792794"
      by (simp only: of_int_le_iff)
    then have "of_int (round_half_even (q * 2 ^ 53)) / (2 ^ 53 :: rat) \<le> of_int 7205759403792794 / 2 ^ 53"
      by (intro divide_right_mono) simp_all
    then show ?thesis unfolding rd u by simp
  qed
qed

lemma round_double_100_up:
  assumes "7205759403792795 / 2 ^ 53 \<le> r"
  shows "80 < round_double (r * 100)"
proof (cases "128 \<le> r * 100")
  case True
  then have "0 < r * 100" "2 powi 7 \<le> r * 100" by simp_all
  then have "2 powi 7 \<le> round_double (r * 100)" by (rule round_double_lower) simp
  then show ?thesis by simp
next
  case False
  have "7205759403792795 / 2 ^ 53 * 100 \<le> r * 100" using assms by (intro mult_right_mono) simp_all
  moreover have "(80 :: rat) < 7205759403792795 / 2 ^ 53 * 100" by simp
  ultimately have g: "80 < r * 100" by linarith
  then have lo: "2 powi 6 \<le> \<bar>r * 100\<bar>" by simp
  have hi: "\<bar>r * 100\<bar> < 2 powi (6 + 1)" using False g by simp
  have rd: "round_double (r * 100) =
              of_int (round_half_even (r * 100 / 2 powi (6 - 52))) * 2 powi (6 - 52)"
    using lo hi by (rule round_double_exponent) simp
  have u: "(2::rat) powi (6 - 52) = 1 / 2 ^ 46" by (simp add: power_int_minus)
  have "of_int 5629499534213121 \<le> 7205759403792795 / 2 ^ 53 * 100 * (2 ^ 46 :: rat)" by simp
  also have "\<dots> \<le> r * 100 * 2 ^ 46" using assms by (intro mult_right_mono) simp_all
  finally have "5629499534213121 \<le> round_half_even (r * 100 * 2 ^ 46)"
    by (rule round_half_even_lower)
  then have "(of_int 5629499534213121 :: rat) \<le> of_int (round_half_even (r * 100 * 2 ^ 46))"
    by (simp only: of_int_le_iff)
  then have "of_int 5629499534213121 / 2 ^ 46
               \<le> of_int (round_half_even (r * 100 * 2 ^ 46)) / (2 ^ 46 :: rat)"
    by (intro divide_right_mono) simp_all
  moreover have "(80 :: rat) < of_int 5629499534213121 / 2 ^ 46" by simp
  ultimately show ?thesis unfolding rd u by simp
qed

lemma round_double_100_down:
  assumes "r \<le> 7205759403792794 / 2 ^ 53"
  shows "round_double (r * 100) \<le> 80"
proof (cases "r * 100 \<le> 0")
  case True
  then have "round_double (r * 100) \<le> 0" by (rule round_double_nonpos)
  then show ?thesis by simp
next
  case pos: False
  show ?thesis
  proof (cases "r * 100 \<le> 64")
    case True
    then have "0 < r * 100" "r * 100 \<le> 2 powi 6" using pos by simp_all
    then have "round_double (r * 100) \<le> 2 powi 6" by (rule round_double_upper) simp
    then show ?thesis by simp
  next
    case False
    then have lo: "2 powi 6 \<le> \<bar>r * 100\<bar>" by simp
    have le: "r * 100 \<le> 7205759403792794 / 2 ^ 53 * 100" using assms by (intro mult_right_mono) simp_all
    moreover have "(7205759403792794 / 2 ^ 53 * 100 :: rat) < 128" by simp
    ultimately have hi: "\<bar>r * 100\<bar> < 2 powi (6 + 1)" using pos by simp
    have rd: "round_double (r * 100) =
                of_int (round_half_even (r * 100 / 2 powi (6 - 52))) * 2 powi (6 - 52)"
      using lo hi by (rule round_double_exponent) simp
    have u: "(2::rat) powi (6 - 52) = 1 / 2 ^ 46" by (simp add: power_int_minus)
    have "r * 100 * 2 ^ 46 \<le> 7205759403792794 / 2 ^ 53 * 100 * (2 ^ 46 :: rat)"
      using le by (intro mult_right_mono) simp_all
    also have "\<dots> < of_int 5629499534213120 + 1 / 2" by simp
    finally have "r * 100 * 2 ^ 46 < of_int 5629499534213120 + 1 / 2" .
    then have "round_half_even (r * 100 * 2 ^ 46) \<le> 5629499534213120"
      by (intro round_half_even_below_half) simp_all
    then have "(of_int (round_half_even (r * 100 * 2 ^ 46)) :: rat) \<le> of_int 5629499534213120"
      by (simp only: of_int_le_iff)
    then have "of_int (round_half_even (r * 100 * 2 ^ 46)) / (2 ^ 46 :: rat)
                 \<le> of_int 5629499534213120 / 2 ^ 46"
      by (intro divide_right_mono) simp_all
    moreover have "(of_int 5629499534213120 / 2 ^ 46 :: rat) = 80" by simp
    ultimately show ?thesis unfolding rd u by simp
  qed
qed

text \<open>
  The test \<open>(used / capacity) * 100 > 80\<close> in floats, as a test on the exact quotient
  \<open>q\<close> of the two floats: it holds exactly when \<open>q\<close> is above the midpoint of the double
  nearest to 0.8 and the next double.
\<close>

lemma high_usage_threshold:
  "float_gt (float_mul (to_float q) (Finite 100)) 80 \<longleftrightarrow> 14411518807585589 / 2 ^ 54 < q"
proof (cases "14411518807585589 / 2 ^ 54 < q")
  case True
  then have r: "7205759403792795 / 2 ^ 53 \<le> round_double q" by (rule round_double_threshold_up)
  have p: "\<not> round_double q \<le> - float_max_bound" using r by (simp add: float_max_bound_def)
  have "float_gt (float_mul (to_float q) (Finite 100)) 80"
  proof (cases "float_max_bound \<le> round_double q")
    case True
    then show ?thesis by (simp add: to_float_def Let_def float_mul_def float_gt_def)
  next
    case False
    have g: "80 < round_double (round_double q * 100)" using r by (rule round_double_100_up)
    then have "\<not> round_double (round_double q * 100) \<le> - float_max_bound"
      by (simp add: float_max_bound_def)
    then show ?thesis
      using False p g by (simp add: to_float_def Let_def float_mul_def float_gt_def)
  qed
  then show ?thesis using True by simp
next
  case False
  then have "q \<le> 14411518807585589 / 2 ^ 54" by simp
  then have r: "round_double q \<le> 7205759403792794 / 2 ^ 53" by (rule round_double_threshold_down)
  have p: "\<not> float_max_bound \<le> round_double q" using r by (simp add: float_max_bound_def)
  have "\<not> float_gt (float_mul (to_float q) (Finite 100)) 80"
  proof (cases "round_double q \<le> - float_max_bound")
    case True
    then show ?thesis using p by (simp add: to_float_def Let_def float_mul_def float_gt_def)
  next
    case nf: False
    have g: "round_double (round_double q * 100) \<le> 80" using r by (rule round_double_100_down)
    then have "\<not> float_max_bound \<le> round_double (round_double q * 100)"
      by (simp add: float_max_bound_def)
    then show ?thesis
      using nf p g by (simp add: to_float_def Let_def float_mul_def float_gt_def)
  qed
  then show ?thesis using False by simp
qed

section \<open>Properties of the quantity parser\<close>

lemma is_digit_simps:
  "is_digit c \<Longrightarrow> \<not> is_space c"
  "is_digit c \<Longrightarrow> \<not> is_letter c"
  "is_digit c \<Longrightarrow> c \<noteq> CHR ''_''"
  "is_digit c \<Longrightarrow> c \<noteq> CHR ''-''"
  "is_digit c \<Longrightarrow> c \<noteq> CHR ''+''"
  "is_digit c \<Longrightarrow> c \<noteq> CHR 0x0A"
  "is_letter c \<Longrightarrow> c \<noteq> CHR 0x0A"
  by (auto simp: is_digit_def is_space_def is_letter_def)

lemma newline_simps:
  "\<not> is_digit (CHR 0x0A)" "\<not> is_letter (CHR 0x0A)"
  by (simp_all add: is_digit_def is_letter_def)

lemma strip_digits:
  assumes "\<forall>c\<in>set ds. is_digit c"
  shows "strip ds = ds"
proof -
  have a: "dropWhile is_space ds = ds"
    using assms by (cases ds) (auto simp: is_digit_simps)
  have b: "dropWhile is_space (rev ds) = rev ds"
    using assms by (cases "rev ds") (auto simp: is_digit_simps dest: arg_cong[where f=set])
  show ?thesis by (simp add: strip_def a b)
qed

lemma int_body_digits:
  "ds \<noteq> [] \<Longrightarrow> \<forall>c\<in>set ds. is_digit c \<Longrightarrow> int_body ds"
  by (induction ds rule: int_body.induct) (auto simp: is_digit_simps)

lemma int_of_str_digits:
  assumes "ds \<noteq> []" and "\<forall>c\<in>set ds. is_digit c"
  shows "int_of_str ds =
           (if length ds > int_max_str_digits
            then Inl (ValueError ''Exceeds the limit (4300 digits) for integer string conversion'')
            else Inr (decimal ds))"
proof -
  have h: "(case ds of
              [] \<Rightarrow> (False, [])
            | c # r \<Rightarrow>
                if c = CHR ''-'' then (True, r)
                else if c = CHR ''+'' then (False, r)
                else (False, ds)) = (False, ds)"
    using assms by (cases ds) (auto simp: is_digit_simps)
  have f: "filter (\<lambda>c. c \<noteq> CHR ''_'') ds = ds"
    using assms(2) by (auto simp: filter_id_conv is_digit_simps)
  show ?thesis
    by (simp add: int_of_str_def strip_digits[OF assms(2)] h f int_body_digits[OF assms])
qed

lemma takeWhile_stop:
  assumes "\<forall>x\<in>set xs. P x" and "ys = [] \<or> \<not> P (hd ys)"
  shows "takeWhile P (xs @ ys) = xs" and "dropWhile P (xs @ ys) = ys"
  using assms by (induction xs) (auto simp: takeWhile_eq_Nil_iff dropWhile_eq_self_iff)

lemma re_match_quantity_shape:
  assumes "quantity_shape v ds ls nl"
  shows "re_match_quantity v = Some (ds, if ls = [] then None else Some ls)"
proof -
  from assms have v: "v = ds @ ls @ nl" and ne: "ds \<noteq> []"
    and d: "\<forall>c\<in>set ds. is_digit c" and l: "\<forall>c\<in>set ls. is_letter c"
    and nl: "nl = [] \<or> nl = [CHR 0x0A]"
    by (auto simp: quantity_shape_def list_all_iff)
  have stop1: "ls @ nl = [] \<or> \<not> is_digit (hd (ls @ nl))"
    using l nl by (cases ls) (auto simp: is_digit_simps newline_simps)
  have stop2: "nl = [] \<or> \<not> is_letter (hd nl)"
    using nl by (auto simp: newline_simps)
  have t1: "takeWhile is_digit v = ds" and d1: "dropWhile is_digit v = ls @ nl"
    unfolding v using takeWhile_stop[OF d stop1] by simp_all
  have t2: "takeWhile is_letter (ls @ nl) = ls" and d2: "dropWhile is_letter (ls @ nl) = nl"
    using takeWhile_stop[OF l stop2] by simp_all
  show ?thesis
    unfolding re_match_quantity_def Let_def t1 d1 t2 d2 using ne nl by simp
qed

lemma re_match_quantity_Some:
  assumes "re_match_quantity v = Some (ds, g)"
  shows "\<exists>ls nl. quantity_shape v ds ls nl \<and> g = (if ls = [] then None else Some ls)"
proof -
  define rest where "rest = dropWhile is_digit v"
  define ls where "ls = takeWhile is_letter rest"
  define nl where "nl = dropWhile is_letter rest"
  from assms have ds: "ds = takeWhile is_digit v" and ne: "ds \<noteq> []"
    and nl: "nl = [] \<or> nl = [CHR 0x0A]" and g: "g = (if ls = [] then None else Some ls)"
    by (auto simp: re_match_quantity_def Let_def rest_def ls_def nl_def split: if_splits)
  have "v = ds @ rest" by (simp add: ds rest_def)
  moreover have "rest = ls @ nl" by (simp add: ls_def nl_def)
  moreover have "list_all is_digit ds" by (auto simp: ds list_all_iff dest: set_takeWhileD)
  moreover have "list_all is_letter ls" by (auto simp: ls_def list_all_iff dest: set_takeWhileD)
  ultimately have "quantity_shape v ds ls nl"
    using ne nl by (simp add: quantity_shape_def)
  then show ?thesis using g by blast
qed

lemma re_match_quantity_None:
  "re_match_quantity v = None \<longleftrightarrow> \<not> (\<exists>ds ls nl. quantity_shape v ds ls nl)"
  using re_match_quantity_shape re_match_quantity_Some
  by (metis not_Some_eq option.distinct(1) surj_pair)

lemma parse_memory_shape:
  assumes "quantity_shape v ds ls nl"
  shows "parse_memory v =
           (if length ds > int_max_str_digits
            then Inl (ValueError ''Exceeds the limit (4300 digits) for integer string conversion'')
            else case units (if ls = [] then ''M'' else ls) of
                   None \<Rightarrow> Inl (ValueError (''Unsupported memory unit: '' @ ls))
                 | Some f \<Rightarrow>
                     (case py_mul (decimal ds) f of
                        Inl e \<Rightarrow> Inl e
                      | Inr r \<Rightarrow> py_int r))"
proof -
  have d: "ds \<noteq> []" "\<forall>c\<in>set ds. is_digit c"
    using assms by (auto simp: quantity_shape_def list_all_iff)
  have m: "units ''M'' \<noteq> None" by (simp add: units_def)
  show ?thesis
    using m
    by (auto simp: parse_memory_def re_match_quantity_shape[OF assms] int_of_str_digits[OF d]
          split: option.splits sum.splits)
qed

lemma digit_value_nonneg: "is_digit c \<Longrightarrow> 0 \<le> digit_value c"
  by (auto simp: is_digit_def digit_value_def)

lemma foldl_decimal_nonneg:
  "\<forall>c\<in>set ds. is_digit c \<Longrightarrow> 0 \<le> a \<Longrightarrow>
     0 \<le> foldl (\<lambda>acc c. 10 * acc + digit_value c) a ds"
  by (induction ds arbitrary: a) (auto simp: digit_value_nonneg)

lemma decimal_nonneg: "\<forall>c\<in>set ds. is_digit c \<Longrightarrow> 0 \<le> decimal ds"
  by (simp add: decimal_def foldl_decimal_nonneg)

lemma foldl_decimal_zeros:
  "foldl (\<lambda>acc c. 10 * acc + digit_value c) a (replicate n (CHR ''0'')) = a * 10 ^ n"
  by (induction n arbitrary: a) (simp_all add: digit_value_def)

lemma decimal_zeros: "decimal (c # replicate n (CHR ''0'')) = digit_value c * 10 ^ n"
  by (simp add: decimal_def foldl_decimal_zeros)

lemma int_to_float_Inr:
  assumes "int_to_float n = Inr x"
  shows "x = round_double (of_int n)" and "\<bar>x\<bar> < 2 ^ 1024" and "0 \<le> n \<Longrightarrow> 0 \<le> x"
proof -
  show x: "x = round_double (of_int n)" and "\<bar>x\<bar> < 2 ^ 1024"
    using assms by (auto simp: int_to_float_def Let_def float_max_bound_def split: if_splits)
  show "0 \<le> x" if "0 \<le> n"
    unfolding x using that by (intro round_double_nonneg) simp
qed

lemma to_float_Ki:
  assumes "0 \<le> x" and "x < 2 ^ 1024"
  shows "to_float (x / 1024) = Finite (round_double (x / 1024))"
    and "0 \<le> round_double (x / 1024)"
proof -
  show n: "0 \<le> round_double (x / 1024)"
    using assms(1) by (intro round_double_nonneg) simp
  have "round_double (x / 1024) \<le> 2 powi 1014"
  proof (cases "x = 0")
    case True
    then show ?thesis by (simp add: round_double_def)
  next
    case False
    then have "0 < x / 1024" using assms(1) by simp
    moreover have "x / 1024 \<le> 2 powi 1014"
    proof -
      have "x / 1024 \<le> 2 ^ 1024 / 1024" using assms(2) by (intro divide_right_mono) simp_all
      also have "\<dots> = (2::rat) powi 1014" by simp
      finally show ?thesis .
    qed
    ultimately show ?thesis by (rule round_double_upper) simp
  qed
  moreover have "(2::rat) powi 1014 < 2 ^ 1024" by simp
  ultimately have "round_double (x / 1024) < 2 ^ 1024" by (rule le_less_trans)
  then show "to_float (x / 1024) = Finite (round_double (x / 1024))"
    using n by (simp add: to_float_def Let_def float_max_bound_def)
qed

lemma float_mul_Ki:
  assumes "0 \<le> x" and "x < 2 ^ 1024"
  shows "float_mul (Finite x) (Finite (1 / 1024)) = Finite (round_double (x / 1024))"
  using to_float_Ki(1)[OF assms] by (simp add: float_mul_def)

lemma py_mul_Ki:
  assumes "0 \<le> n" and "n < 2 ^ 53"
  shows "py_mul n (PyFloat (Finite (1 / 1024))) = Inr (PyFloat (Finite (of_int n / 1024)))"
    and "py_int (PyFloat (Finite (of_int n / 1024))) = Inr (n div 1024)"
proof -
  have a: "\<bar>n\<bar> < 2 ^ 53" using assms by simp
  have r: "round_double (of_int n / 1024) = of_int n / 1024"
    using round_double_exact[of "of_int n / 1024" n "-10"] a
    by (simp add: power_int_minus field_simps)
  have "(of_int n :: rat) < of_int (2 ^ 53)" using assms(2) by (simp only: of_int_less_iff)
  then have "(of_int n :: rat) < 2 ^ 1024" by simp
  moreover have "(0::rat) \<le> of_int n" using assms(1) by simp
  ultimately have "float_mul (Finite (of_int n)) (Finite (1 / 1024)) = Finite (of_int n / 1024)"
    using float_mul_Ki[of "of_int n"] r by simp
  then show "py_mul n (PyFloat (Finite (1 / 1024))) = Inr (PyFloat (Finite (of_int n / 1024)))"
    by (simp add: py_mul_def int_to_float_exact[OF a])
  have "\<lfloor>rat_of_int n / rat_of_int 1024\<rfloor> = n div 1024"
    by (rule floor_divide_of_int_eq)
  then show "py_int (PyFloat (Finite (of_int n / 1024))) = Inr (n div 1024)"
    using assms(1) by (simp add: py_int_def)
qed

lemma quantity_shape_unique:
  assumes "quantity_shape v ds ls nl" and "quantity_shape v ds' ls' nl'"
  shows "ds' = ds \<and> ls' = ls \<and> nl' = nl"
proof -
  have "Some (ds, if ls = [] then None else Some ls) = Some (ds', if ls' = [] then None else Some ls')"
    using re_match_quantity_shape[OF assms(1)] re_match_quantity_shape[OF assms(2)] by simp
  then have "ds' = ds" "ls' = ls" by (auto split: if_splits)
  moreover have "v = ds @ ls @ nl" "v = ds' @ ls' @ nl'"
    using assms by (simp_all add: quantity_shape_def)
  ultimately show ?thesis by simp
qed

lemma units_None_iff:
  "units u = None \<longleftrightarrow> u \<notin> {''Ki'', ''M'', ''Mi'', ''G'', ''Gi''}"
  by (simp add: units_def)

lemma parse_memory_Ki_shape:
  assumes "quantity_shape v ds ''Ki'' nl" and "length ds \<le> 4300"
  shows "parse_memory v =
           (case int_to_float (decimal ds) of
              Inl e \<Rightarrow> Inl e
            | Inr x \<Rightarrow> Inr \<lfloor>round_double (x / 1024)\<rfloor>)"
proof (cases "int_to_float (decimal ds)")
  case (Inl e)
  then show ?thesis
    using assms(2)
    by (simp add: parse_memory_shape[OF assms(1)] int_max_str_digits_def units_def py_mul_def)
next
  case (Inr x)
  have "0 \<le> decimal ds"
    using assms(1) by (intro decimal_nonneg) (simp add: quantity_shape_def list_all_iff)
  then have x: "0 \<le> x" "x < 2 ^ 1024"
    using int_to_float_Inr[OF Inr] by simp_all
  show ?thesis
    using assms(2) to_float_Ki(2)[OF x]
    by (simp add: parse_memory_shape[OF assms(1)] int_max_str_digits_def units_def py_mul_def
        Inr float_mul_Ki[OF x] py_int_def)
qed

lemma parse_memory_int_unit:
  assumes "quantity_shape v ds ls nl" and "length ds \<le> 4300"
      and "ls \<in> {[], ''M'', ''Mi'', ''G'', ''Gi''}"
  shows "\<exists>m. parse_memory v = Inr m"
  using assms(2,3)
  by (auto simp: parse_memory_shape[OF assms(1)] int_max_str_digits_def units_def py_mul_def
      py_int_def)

lemma parse_memory_bad_unit:
  assumes "quantity_shape v ds ls nl" and "length ds \<le> 4300"
      and "ls \<notin> {[], ''Ki'', ''M'', ''Mi'', ''G'', ''Gi''}"
  shows "parse_memory v = Inl (ValueError (''Unsupported memory unit: '' @ ls))"
proof -
  have "units ls = None" "ls \<noteq> []" using assms(3) by (simp_all add: units_None_iff)
  then show ?thesis
    using assms(2) by (simp add: parse_memory_shape[OF assms(1)] int_max_str_digits_def)
qed

lemma parse_memory_too_long:
  assumes "quantity_shape v ds ls nl" and "4300 < length ds"
  shows "parse_memory v =
           Inl (ValueError ''Exceeds the limit (4300 digits) for integer string conversion'')"
  using assms(2) by (simp add: parse_memory_shape[OF assms(1)] int_max_str_digits_def)

lemma parse_memory_no_shape:
  assumes "\<not> (\<exists>ds ls nl. quantity_shape v ds ls nl)"
  shows "parse_memory v = Inl (ValueError (''Invalid memory format: '' @ v))"
proof -
  have "re_match_quantity v = None" using assms by (simp add: re_match_quantity_None)
  then show ?thesis by (simp add: parse_memory_def)
qed

lemma parse_memory_fails_iff:
  "(\<exists>e. parse_memory v = Inl e) \<longleftrightarrow>
     \<not> (\<exists>ds ls nl. quantity_shape v ds ls nl \<and> length ds \<le> 4300 \<and>
           ls \<in> {[], ''Ki'', ''M'', ''Mi'', ''G'', ''Gi''} \<and>
           (ls = ''Ki'' \<longrightarrow> (\<exists>x. int_to_float (decimal ds) = Inr x)))"
  (is "?L \<longleftrightarrow> \<not> ?R")
proof (cases "\<exists>ds ls nl. quantity_shape v ds ls nl")
  case False
  then show ?thesis using parse_memory_no_shape[OF False] by auto
next
  case True
  then obtain ds ls nl where sh: "quantity_shape v ds ls nl" by blast
  have R: "?R \<longleftrightarrow> length ds \<le> 4300 \<and> ls \<in> {[], ''Ki'', ''M'', ''Mi'', ''G'', ''Gi''} \<and>
           (ls = ''Ki'' \<longrightarrow> (\<exists>x. int_to_float (decimal ds) = Inr x))"
    using sh quantity_shape_unique[OF sh] by blast
  show ?thesis
  proof (cases "length ds \<le> 4300")
    case False
    then show ?thesis using parse_memory_too_long[OF sh] R by simp
  next
    case len: True
    show ?thesis
    proof (cases "ls \<in> {[], ''Ki'', ''M'', ''Mi'', ''G'', ''Gi''}")
      case False
      then show ?thesis using parse_memory_bad_unit[OF sh len] R by simp
    next
      case u: True
      show ?thesis
      proof (cases "ls = ''Ki''")
        case True
        then have sh': "quantity_shape v ds ''Ki'' nl" using sh by simp
        show ?thesis
          using parse_memory_Ki_shape[OF sh' len] R len True
          by (auto split: sum.splits)
      next
        case False
        then have "ls \<in> {[], ''M'', ''Mi'', ''G'', ''Gi''}" using u by auto
        then obtain m where "parse_memory v = Inr m"
          using parse_memory_int_unit[OF sh len] by blast
        then show ?thesis using R len u False by simp
      qed
    qed
  qed
qed

lemma parse_memory_Ki_overflow:
  assumes "quantity_shape v ds ''Ki'' nl" and "length ds \<le> 4300" and "2 ^ 1024 \<le> decimal ds"
  shows "parse_memory v = Inl OverflowError"
  by (simp add: parse_memory_Ki_shape[OF assms(1,2)] int_to_float_overflow[OF assms(3)])

lemma parse_memory_Ki_in_range:
  assumes "quantity_shape v ds ''Ki'' nl" and "length ds \<le> 4300" and "decimal ds < 2 ^ 1023"
  shows "\<exists>m. parse_memory v = Inr m"
proof -
  have "0 \<le> decimal ds"
    using assms(1) by (intro decimal_nonneg) (simp add: quantity_shape_def list_all_iff)
  then obtain x where "int_to_float (decimal ds) = Inr x"
    using int_to_float_in_range[OF _ assms(3)] by blast
  then show ?thesis by (simp add: parse_memory_Ki_shape[OF assms(1,2)])
qed

lemma parse_memory_nonneg:
  assumes "parse_memory v = Inr m"
  shows "0 \<le> m"
proof -
  from assms obtain ds g where "re_match_quantity v = Some (ds, g)"
    by (auto simp: parse_memory_def split: option.splits)
  then obtain ls nl where sh: "quantity_shape v ds ls nl"
    using re_match_quantity_Some by blast
  then have d: "0 \<le> decimal ds"
    by (intro decimal_nonneg) (simp add: quantity_shape_def list_all_iff)
  have "0 \<le> k" if "py_mul (decimal ds) f = Inr r" and "units u = Some f" and "py_int r = Inr k"
    for f r u k
  proof (cases f)
    case (PyInt j)
    then have "j = 1 \<or> j = 1024"
      using that(2) by (auto simp: units_def split: if_splits)
    then show ?thesis using that(1,3) PyInt d by (auto simp: py_mul_def py_int_def)
  next
    case (PyFloat y)
    then have y: "y = Finite (1 / 1024)"
      using that(2) by (auto simp: units_def split: if_splits)
    from that(1) PyFloat obtain x where x: "int_to_float (decimal ds) = Inr x"
      and r: "r = PyFloat (float_mul (Finite x) y)"
      by (auto simp: py_mul_def split: sum.splits)
    have x': "0 \<le> x" "x < 2 ^ 1024"
      using int_to_float_Inr[OF x] d by simp_all
    show ?thesis
      using that(3) to_float_Ki(2)[OF x']
      by (auto simp: r y float_mul_Ki[OF x'] py_int_def)
  qed
  then show ?thesis
    using assms by (auto simp: parse_memory_shape[OF sh] split: if_splits option.splits sum.splits)
qed

section \<open>Properties of the controller resolution\<close>

lemma find_none_iff: "find P xs = None \<longleftrightarrow> (\<forall>x\<in>set xs. \<not> P x)"
  by (induction xs) auto

lemma fetch_pods_other_kind:
  assumes "k \<notin> {''Deployment'', ''ReplicaSet'', ''StatefulSet'', ''DaemonSet''}"
  shows "fetch_pods_for_controller c k n ns =
           Inl (ValueError (''Unsupported controller kind: '' @ k))"
  using assms by (simp add: fetch_pods_for_controller.simps)

lemma fetch_pods_deployment_no_rs:
  assumes "list_namespaced_replica_set c ns = Inr rss"
      and "\<forall>rs\<in>set rss. \<not> owned_by_deployment n rs"
  shows "fetch_pods_for_controller c ''Deployment'' n ns =
           Inl (ValueError ''Unsupported controller kind: Deployment'')"
proof -
  have "find (owned_by_deployment n) rss = None"
    using assms(2) by (simp add: find_none_iff)
  then show ?thesis
    using assms(1) by (simp add: fetch_pods_for_controller.simps)
qed

lemma owned_by_deployment_iff:
  "owned_by_deployment n rs \<longleftrightarrow>
     (\<exists>owners. ctl_owner_references rs = Some owners \<and>
        (\<exists>ow\<in>set owners. owner_kind ow = ''Deployment'' \<and> owner_name ow = n))"
  by (auto simp: owned_by_deployment_def list_ex_iff split: option.splits)

section \<open>Properties of the measurements\<close>

lemma console_print_None:
  "print_error c item = None \<Longrightarrow> console_print c item con = Inr (con @ [item])"
  by (simp add: console_print_def)

lemma console_print_Some:
  "print_error c item = Some x \<Longrightarrow> console_print c item con = Inl (x, con)"
  by (simp add: console_print_def)

lemma console_print_Inr:
  "console_print c item con = Inr con' \<longleftrightarrow> print_error c item = None \<and> con' = con @ [item]"
  by (auto simp: console_print_def split: option.splits)

lemma get_memory_utilization_Some:
  "get_memory_utilization c rt namespace name con = Inr (Some t, con') \<longleftrightarrow>
     fetch_memory c rt namespace name = Inr t \<and> con' = con"
  by (auto simp: get_memory_utilization_def split: sum.splits)

lemma get_memory_utilization_fetched:
  "fetch_memory c rt namespace name = Inr t \<Longrightarrow>
     get_memory_utilization c rt namespace name con = Inr (Some t, con)"
  by (simp add: get_memory_utilization_def)

lemma get_memory_utilization_failed:
  "fetch_memory c rt namespace name = Inl e \<Longrightarrow>
     get_memory_utilization c rt namespace name con =
       (case print_error c (FetchError rt name e) of
          Some x \<Rightarrow> Inl (x, con)
        | None \<Rightarrow> Inr (None, con @ [FetchError rt name e]))"
  by (simp add: get_memory_utilization_def console_print_def split: option.splits)

text \<open>The only exception that leaves \<open>get_memory_utilization\<close> is one of its \<open>print\<close>.\<close>

lemma get_memory_utilization_Inl:
  "get_memory_utilization c rt namespace name con = Inl f \<longleftrightarrow>
     (\<exists>e x. fetch_memory c rt namespace name = Inl e \<and>
        print_error c (FetchError rt name e) = Some x \<and> f = (x, con))"
  by (auto simp: get_memory_utilization_def console_print_def split: sum.splits option.splits)

lemma get_memory_utilization_pod:
  "get_memory_utilization c ''pod'' (Some (pod_namespace p)) (pod_name p) con =
     (case pod_usage c p of
        Inr m \<Rightarrow> Inr (Some m, con)
      | Inl e \<Rightarrow>
          (case print_error c (FetchError ''pod'' (pod_name p) e) of
             Some x \<Rightarrow> Inl (x, con)
           | None \<Rightarrow> Inr (None, con @ [FetchError ''pod'' (pod_name p) e])))"
  by (simp add: get_memory_utilization_def pod_usage_def console_print_def
      split: sum.splits option.splits)

lemma fetch_memory_node_nonneg:
  "fetch_memory c ''node'' namespace name = Inr used \<Longrightarrow> 0 \<le> used"
  by (auto simp: fetch_memory_def split: sum.splits dest: parse_memory_nonneg)

lemma sum_container_memory_Inr:
  "sum_container_memory cs = Inr t \<longleftrightarrow>
     (\<exists>ms. map (\<lambda>cu. parse_memory (memory (cu_usage cu))) cs = map Inr ms \<and> t = sum_list ms)"
proof (induction cs arbitrary: t)
  case Nil
  then show ?case by auto
next
  case (Cons a cs)
  show ?case
  proof
    assume "sum_container_memory (a # cs) = Inr t"
    then obtain m s where m: "parse_memory (memory (cu_usage a)) = Inr m"
      and s: "sum_container_memory cs = Inr s" and t: "t = m + s"
      by (auto split: sum.splits)
    from s obtain ms where "map (\<lambda>cu. parse_memory (memory (cu_usage cu))) cs = map Inr ms"
      and "s = sum_list ms" using Cons.IH by blast
    then have "map (\<lambda>cu. parse_memory (memory (cu_usage cu))) (a # cs) = map Inr (m # ms)
               \<and> t = sum_list (m # ms)"
      using m t by simp
    then show "\<exists>ms. map (\<lambda>cu. parse_memory (memory (cu_usage cu))) (a # cs) = map Inr ms
                 \<and> t = sum_list ms" by blast
  next
    assume "\<exists>ms. map (\<lambda>cu. parse_memory (memory (cu_usage cu))) (a # cs) = map Inr ms
                 \<and> t = sum_list ms"
    then obtain ms where ms: "map (\<lambda>cu. parse_memory (memory (cu_usage cu))) (a # cs) = map Inr ms"
      and t: "t = sum_list ms" by blast
    then obtain m ms' where c: "ms = m # ms'" by (cases ms) auto
    have "sum_container_memory cs = Inr (sum_list ms')"
      using ms c Cons.IH by auto
    then show "sum_container_memory (a # cs) = Inr t"
      using ms c t by simp
  qed
qed

lemma validate_containers_list_all2:
  "validate_containers js = Some cs \<Longrightarrow>
     list_all2 (\<lambda>j cu. \<exists>obj u. j = JObj obj \<and> map_of obj ''usage'' = Some (JObj u)
                  \<and> map_of u ''memory'' = Some (JStr (memory (cu_usage cu)))) js cs"
proof (induction js arbitrary: cs)
  case Nil
  then show ?case by simp
next
  case (Cons j js)
  then obtain cu cs' where v: "validate_ContainerUsage j = Some cu"
    and r: "validate_containers js = Some cs'" and cs: "cs = cu # cs'"
    by (auto split: option.splits)
  from v have "\<exists>obj u. j = JObj obj \<and> map_of obj ''usage'' = Some (JObj u)
                  \<and> map_of u ''memory'' = Some (JStr (memory (cu_usage cu)))"
    by (auto simp: validate_ContainerUsage_def usage_field_def validate_ResourceUsage_def
          str_field_def split: json.splits option.splits)
  then show ?case using Cons.IH[OF r] cs by simp
qed

lemma validate_PodMetrics_containers:
  assumes "validate_PodMetrics metrics = Inr pm"
  shows "\<exists>obj js. metrics = JObj obj \<and> map_of obj ''containers'' = Some (JArr js) \<and>
           list_all2 (\<lambda>j cu. \<exists>ob u. j = JObj ob \<and> map_of ob ''usage'' = Some (JObj u)
                        \<and> map_of u ''memory'' = Some (JStr (memory (cu_usage cu))))
             js (pm_containers pm)"
proof -
  from assms obtain obj cs where m: "metrics = JObj obj" and c: "containers_field obj = Some cs"
    and p: "pm_containers pm = cs"
    by (auto simp: validate_PodMetrics_def split: json.splits option.splits)
  from c obtain js where j: "map_of obj ''containers'' = Some (JArr js)"
    and v: "validate_containers js = Some cs"
    by (auto simp: containers_field_def split: option.splits json.splits)
  show ?thesis using m j validate_containers_list_all2[OF v] p by blast
qed

lemma fetch_memory_pod_Inr:
  "fetch_memory c ''pod'' namespace name = Inr t \<longleftrightarrow>
     (\<exists>metrics pm. get_namespaced_custom_object c namespace name = Inr metrics \<and>
        validate_PodMetrics metrics = Inr pm \<and>
        sum_container_memory (pm_containers pm) = Inr t)"
  by (auto simp: fetch_memory_def split: sum.splits)

lemma fetch_memory_list_node_update [simp]:
  "fetch_memory (c\<lparr>list_node := x\<rparr>) rt namespace name = fetch_memory c rt namespace name"
  by (simp add: fetch_memory_def)

lemma console_print_list_node_update [simp]:
  "console_print (c\<lparr>list_node := x\<rparr>) item con = console_print c item con"
  by (simp add: console_print_def)

lemma get_memory_utilization_list_node_update [simp]:
  "get_memory_utilization (c\<lparr>list_node := x\<rparr>) rt namespace name con =
     get_memory_utilization c rt namespace name con"
  by (simp add: get_memory_utilization_def split: sum.splits)

section \<open>Properties of the pod loop\<close>

lemma analyze_pods_loop_top:
  assumes "analyze_pods_loop c pods hp hu rs con = Inr (best, rs', con')"
  shows "(best = hp \<and> (\<forall>p\<in>set pods. \<forall>m. pod_usage c p = Inr m \<longrightarrow> m \<le> hu))
       \<or> (\<exists>before p after m. pods = before @ p # after \<and> best = Some p
             \<and> pod_usage c p = Inr m \<and> hu < m
             \<and> (\<forall>q\<in>set before. \<forall>m'. pod_usage c q = Inr m' \<longrightarrow> m' < m)
             \<and> (\<forall>q\<in>set after. \<forall>m'. pod_usage c q = Inr m' \<longrightarrow> m' \<le> m))"
  using assms
proof (induction pods arbitrary: hp hu rs con)
  case Nil
  then show ?case by simp
next
  case (Cons a pods)
  show ?case
  proof (cases "pod_usage c a")
    case (Inl e)
    then obtain k where "analyze_pods_loop c pods hp hu rs k = Inr (best, rs', con')"
      using Cons.prems by (auto simp: get_memory_utilization_pod split: option.splits)
    from Cons.IH[OF this] show ?thesis
    proof (elim disjE exE conjE)
      assume "best = hp" "\<forall>p\<in>set pods. \<forall>m. pod_usage c p = Inr m \<longrightarrow> m \<le> hu"
      then show ?thesis using Inl by simp
    next
      fix before p after m
      assume h: "pods = before @ p # after" "best = Some p" "pod_usage c p = Inr m" "hu < m"
        "\<forall>q\<in>set before. \<forall>m'. pod_usage c q = Inr m' \<longrightarrow> m' < m"
        "\<forall>q\<in>set after. \<forall>m'. pod_usage c q = Inr m' \<longrightarrow> m' \<le> m"
      have "a # pods = (a # before) @ p # after" using h(1) by simp
      moreover have "\<forall>q\<in>set (a # before). \<forall>m'. pod_usage c q = Inr m' \<longrightarrow> m' < m"
        using h(5) Inl by simp
      ultimately show ?thesis using h(2,3,4,6) by blast
    qed
  next
    case (Inr ma)
    show ?thesis
    proof (cases "hu < ma")
      case True
      then have "analyze_pods_loop c pods (Some a) ma
                   (rs @ [[Text (pod_name a), Text (pod_namespace a), Thousands ma]]) con
                 = Inr (best, rs', con')"
        using Cons.prems Inr by (simp add: get_memory_utilization_pod)
      from Cons.IH[OF this] show ?thesis
      proof (elim disjE exE conjE)
        assume h: "best = Some a" "\<forall>p\<in>set pods. \<forall>m. pod_usage c p = Inr m \<longrightarrow> m \<le> ma"
        have "a # pods = [] @ a # pods" by simp
        moreover have "\<forall>q\<in>set []. \<forall>m'. pod_usage c q = Inr m' \<longrightarrow> m' < ma" by simp
        ultimately show ?thesis using h Inr True by blast
      next
        fix before p after m
        assume h: "pods = before @ p # after" "best = Some p" "pod_usage c p = Inr m" "ma < m"
          "\<forall>q\<in>set before. \<forall>m'. pod_usage c q = Inr m' \<longrightarrow> m' < m"
          "\<forall>q\<in>set after. \<forall>m'. pod_usage c q = Inr m' \<longrightarrow> m' \<le> m"
        have "a # pods = (a # before) @ p # after" using h(1) by simp
        moreover have "\<forall>q\<in>set (a # before). \<forall>m'. pod_usage c q = Inr m' \<longrightarrow> m' < m"
          using h(4,5) Inr by simp
        moreover have "hu < m" using True h(4) by simp
        ultimately show ?thesis using h(2,3,6) by blast
      qed
    next
      case False
      then have "analyze_pods_loop c pods hp hu
                   (rs @ [[Text (pod_name a), Text (pod_namespace a), Thousands ma]]) con
                 = Inr (best, rs', con')"
        using Cons.prems Inr by (simp add: get_memory_utilization_pod)
      from Cons.IH[OF this] show ?thesis
      proof (elim disjE exE conjE)
        assume "best = hp" "\<forall>p\<in>set pods. \<forall>m. pod_usage c p = Inr m \<longrightarrow> m \<le> hu"
        then show ?thesis using Inr False by simp
      next
        fix before p after m
        assume h: "pods = before @ p # after" "best = Some p" "pod_usage c p = Inr m" "hu < m"
          "\<forall>q\<in>set before. \<forall>m'. pod_usage c q = Inr m' \<longrightarrow> m' < m"
          "\<forall>q\<in>set after. \<forall>m'. pod_usage c q = Inr m' \<longrightarrow> m' \<le> m"
        have "a # pods = (a # before) @ p # after" using h(1) by simp
        moreover have "\<forall>q\<in>set (a # before). \<forall>m'. pod_usage c q = Inr m' \<longrightarrow> m' < m"
          using h(4,5) Inr False by simp
        ultimately show ?thesis using h(2,3,4,6) by blast
      qed
    qed
  qed
qed

text \<open>The loop returns when the line of every pod whose fetch fails can be printed.\<close>

lemma analyze_pods_loop_returns:
  assumes "\<forall>p\<in>set pods. \<forall>e. pod_usage c p = Inl e \<longrightarrow>
             print_error c (FetchError ''pod'' (pod_name p) e) = None"
  shows "\<exists>best rs' con'. analyze_pods_loop c pods hp hu rs con = Inr (best, rs', con')"
  using assms
proof (induction pods arbitrary: hp hu rs con)
  case Nil
  then show ?case by simp
next
  case (Cons a pods)
  then have ih: "\<exists>best rs' con'. analyze_pods_loop c pods hp' hu' rs2 con2 = Inr (best, rs', con')"
    for hp' hu' rs2 con2
    by simp
  show ?case
  proof (cases "pod_usage c a")
    case (Inl e)
    then have "print_error c (FetchError ''pod'' (pod_name a) e) = None"
      using Cons.prems by simp
    then show ?thesis using Inl ih by (simp add: get_memory_utilization_pod)
  next
    case (Inr ma)
    then show ?thesis using ih by (simp add: get_memory_utilization_pod)
  qed
qed

text \<open>What \<open>analyze_pods_on_node\<close> returns is what its loop returns, the table printed.\<close>

lemma analyze_pods_on_node_Inr:
  assumes "list_pod_for_all_namespaces c (''spec.nodeName='' @ nname) = Inr pods"
  shows "analyze_pods_on_node c nname con = Inr (best, con') \<longleftrightarrow>
           (\<exists>rs' con2. analyze_pods_loop c pods None 0 [] con = Inr (best, rs', con2) \<and>
              print_error c (PrintTable (pod_table nname rs')) = None \<and>
              con' = con2 @ [PrintTable (pod_table nname rs')])"
  using assms
  by (auto simp: analyze_pods_on_node_def console_print_def split: sum.splits option.splits)

section \<open>Properties of the node loop\<close>



lemma utilization_percentage_defined:
  assumes "0 \<le> used" and "used < 2 ^ 1023" and "cap \<noteq> 0"
  shows "utilization_percentage used cap =
           Inr (float_mul (to_float (round_double (of_int used) / cap)) (Finite 100))"
proof -
  obtain u where u: "int_to_float used = Inr u"
    using int_to_float_in_range[OF assms(1,2)] by blast
  then have "u = round_double (of_int used)" by (rule int_to_float_Inr)
  then show ?thesis
    using assms(3) u by (simp add: utilization_percentage_def float_div_def)
qed

lemma utilization_percentage_error:
  assumes "1 \<le> used" and "used < 2 ^ 53" and "1 / 1024 \<le> cap" and "cap < 2 ^ 53"
  shows "\<exists>p. utilization_percentage used cap = Inr (Finite p) \<and>
           \<bar>p - of_int used / cap * 100\<bar> \<le> of_int used / cap * 100 / 2 ^ 51"
proof -
  define a :: rat where "a = of_int used"
  define E1 :: rat where "E1 = 1 + 1 / 2 ^ 53"
  define E0 :: rat where "E0 = 1 - 1 / 2 ^ 53"
  define q where "q = a / cap"
  define r where "r = round_double q"
  define p where "p = round_double (r * 100)"
  have E: "0 \<le> E1" "0 \<le> E0" by (simp_all add: E1_def E0_def)
  have cap: "0 < cap" using assms(3) by simp
  have "(of_int 1 :: rat) \<le> of_int used" using assms(1) by (simp only: of_int_le_iff)
  then have a1: "1 \<le> a" by (simp add: a_def)
  have "(of_int used :: rat) < of_int (2 ^ 53)" using assms(2) by (simp only: of_int_less_iff)
  then have a2: "a \<le> 2 ^ 53" by (simp add: a_def)
  have ex: "int_to_float used = Inr a"
    unfolding a_def using assms(1,2) by (intro int_to_float_exact) simp
  have ql: "1 / 2 ^ 53 \<le> q"
    unfolding q_def using a1 cap assms(4) by (intro frac_le) simp_all
  have qu: "q \<le> 2 ^ 53 / (1 / 1024)"
    unfolding q_def using a1 a2 assms(3) by (intro frac_le) simp_all
  have small: "(2::rat) powi (- 1022) \<le> 1 / 2 ^ 54"
  proof -
    have "(2::rat) powi (- 1022) \<le> 2 powi (- 54)" by (intro power_int_increasing) simp_all
    then show ?thesis by (simp add: power_int_minus)
  qed
  have qn: "2 powi (- 1022) \<le> q" using small ql by simp
  have q0: "0 < q" using ql by simp
  have r1: "q * E0 \<le> r" and r2: "r \<le> q * E1"
    unfolding r_def E0_def E1_def using qn by (rule round_double_error)+
  have "q \<le> 2 powi 63" using qu by simp
  then have ru: "r \<le> 2 powi 63" unfolding r_def by (rule round_double_upper[OF q0]) simp
  have "1 / 2 ^ 54 = 1 / 2 ^ 53 * (1 / 2 :: rat)" by simp
  also have "\<dots> \<le> q * (1 / 2)" using ql by (intro mult_right_mono) simp_all
  also have "\<dots> \<le> q * E0" using q0 by (intro mult_left_mono) (simp_all add: E0_def)
  also have "\<dots> \<le> r" by (rule r1)
  finally have rl: "1 / 2 ^ 54 \<le> r" .
  then have r0: "0 < r" by simp
  have tq: "to_float q = Finite r"
    using ru r0 by (simp add: to_float_def Let_def float_max_bound_def r_def[symmetric])
  have sn: "2 powi (- 1022) \<le> r * 100" using small rl by simp
  have p1: "r * 100 * E0 \<le> p" and p2: "p \<le> r * 100 * E1"
    unfolding p_def E0_def E1_def using sn by (rule round_double_error)+
  have "r * 100 \<le> 2 powi 70" using ru by simp
  moreover have "0 < r * 100" using r0 by simp
  ultimately have pu: "p \<le> 2 powi 70" unfolding p_def by (intro round_double_upper) simp_all
  have p0: "0 \<le> p" unfolding p_def using r0 by (intro round_double_nonneg) simp
  have tp: "to_float (r * 100) = Finite p"
    using pu p0 by (simp add: to_float_def Let_def float_max_bound_def p_def[symmetric])
  have u: "utilization_percentage used cap = Inr (Finite p)"
    using cap by (simp add: utilization_percentage_def ex float_div_def q_def[symmetric] tq
        float_mul_def tp)
  have "r * 100 * E1 \<le> q * E1 * 100 * E1" using r2 E by (intro mult_right_mono) simp_all
  then have up: "p \<le> q * 100 * (E1 * E1)" using p2 by (simp add: mult_ac)
  have "q * E0 * 100 * E0 \<le> r * 100 * E0" using r1 E by (intro mult_right_mono) simp_all
  then have low: "q * 100 * (E0 * E0) \<le> p" using p1 by (simp add: mult_ac)
  have X: "0 \<le> q * 100" using q0 by simp
  have "E1 * E1 \<le> 1 + 1 / 2 ^ 51" by (simp add: E1_def)
  then have "q * 100 * (E1 * E1) \<le> q * 100 * (1 + 1 / 2 ^ 51)"
    using X by (intro mult_left_mono)
  moreover have "1 - 1 / 2 ^ 51 \<le> E0 * E0" by (simp add: E0_def)
  then have "q * 100 * (1 - 1 / 2 ^ 51) \<le> q * 100 * (E0 * E0)"
    using X by (intro mult_left_mono)
  ultimately have b: "q * 100 * (1 - 1 / 2 ^ 51) \<le> p" "p \<le> q * 100 * (1 + 1 / 2 ^ 51)"
    using up low by linarith+
  define d where "d = q * 100 / 2 ^ 51"
  have "q * 100 * (1 - 1 / 2 ^ 51) = q * 100 - d" "q * 100 * (1 + 1 / 2 ^ 51) = q * 100 + d"
    by (simp_all add: d_def right_diff_distrib distrib_left)
  then have "q * 100 - d \<le> p" "p \<le> q * 100 + d" using b by simp_all
  then have "\<bar>p - q * 100\<bar> \<le> d" by linarith
  then have "\<bar>p - q * 100\<bar> \<le> q * 100 / 2 ^ 51" by (simp only: d_def)
  then show ?thesis using u by (auto simp: q_def a_def)
qed

lemma analyze_nodes_loop_step:
  assumes "memory_capacity nd = Inr cap" and "cap \<noteq> 0"
      and "fetch_memory c ''node'' None (node_name nd) = Inr used" and "used < 2 ^ 1023"
  shows "\<exists>pct. utilization_percentage used cap = Inr pct \<and>
           pct = float_mul (to_float (round_double (of_int used) / cap)) (Finite 100) \<and>
           analyze_nodes_loop c (nd # nodes) node_rows high_usage_nodes con =
             analyze_nodes_loop c nodes
               (node_rows @
                  [[Text (node_name nd), Thousands \<lceil>cap\<rceil>, Thousands used, Fixed2 pct,
                    Text (if float_gt pct 80 then ''High Usage'' else ''OK'')]])
               (if float_gt pct 80 then high_usage_nodes @ [node_name nd] else high_usage_nodes)
               con"
proof -
  have "0 \<le> used" using assms(3) by (rule fetch_memory_node_nonneg)
  then have p: "utilization_percentage used cap =
           Inr (float_mul (to_float (round_double (of_int used) / cap)) (Finite 100))"
    using assms(4,2) by (rule utilization_percentage_defined)
  show ?thesis
    by (rule exI[of _ "float_mul (to_float (round_double (of_int used) / cap)) (Finite 100)"])
      (simp add: p assms(1,3) get_memory_utilization_fetched)
qed



lemma analyze_nodes_loop_list_node_update [simp]:
  "analyze_nodes_loop (c\<lparr>list_node := x\<rparr>) nodes node_rows high_usage_nodes con =
     analyze_nodes_loop c nodes node_rows high_usage_nodes con"
  by (induction nodes arbitrary: node_rows high_usage_nodes con)
    (simp_all split: sum.splits prod.splits option.splits)

section \<open>The run on the sample cluster\<close>

lemma to_float_finite:
  "round_double x = d \<Longrightarrow> \<bar>d\<bar> < 2 ^ 1024 \<Longrightarrow> to_float x = Finite d"
  by (auto simp: to_float_def Let_def float_max_bound_def)

lemma round_double_801: "round_double (801 / 1000) = 7214766603047535 / 9007199254740992"
  by (subst round_double_exponent[of "-1"])
    (simp_all add: round_half_even_def Let_def floor_rat_numeral power_int_minus)

lemma round_double_801_100:
  "round_double (7214766603047535 / 9007199254740992 * 100) = 5636536408630887 / 70368744177664"
  by (subst round_double_exponent[of 6])
    (simp_all add: round_half_even_def Let_def floor_rat_numeral power_int_minus)

lemma round_double_800: "round_double (4 / 5) = 3602879701896397 / 4503599627370496"
  by (subst round_double_exponent[of "-1"])
    (simp_all add: round_half_even_def Let_def floor_rat_numeral power_int_minus)

lemma round_double_800_100:
  "round_double (3602879701896397 / 4503599627370496 * 100) = 80"
  by (subst round_double_exponent[of 6])
    (simp_all add: round_half_even_def Let_def floor_rat_numeral power_int_minus)

lemma round_double_x:
  "round_double (6500000000000 / (8319999999999999 / 1024)) = 3602879701896397 / 4503599627370496"
  by (subst round_double_exponent[of "-1"])
    (simp_all add: round_half_even_def Let_def floor_rat_numeral power_int_minus)

lemma utilization_801:
  "utilization_percentage 801 1000 = Inr (Finite (5636536408630887 / 70368744177664))"
proof -
  have a: "to_float (801 / 1000) = Finite (7214766603047535 / 9007199254740992)"
    by (rule to_float_finite[OF round_double_801]) simp
  have b: "to_float (7214766603047535 / 9007199254740992 * 100) =
             Finite (5636536408630887 / 70368744177664)"
    by (rule to_float_finite[OF round_double_801_100]) simp
  have "utilization_percentage 801 1000 = Inr (float_mul (to_float (801 / 1000)) (Finite 100))"
    by (simp add: utilization_percentage_def float_div_def int_to_float_exact[of 801])
  also have "\<dots> = Inr (Finite (5636536408630887 / 70368744177664))"
    unfolding a float_mul_def using b by simp
  finally show ?thesis .
qed

lemma utilization_800: "utilization_percentage 800 1000 = Inr (Finite 80)"
proof -
  have a: "to_float (4 / 5) = Finite (3602879701896397 / 4503599627370496)"
    by (rule to_float_finite[OF round_double_800]) simp
  have b: "to_float (3602879701896397 / 4503599627370496 * 100) = Finite 80"
    by (rule to_float_finite[OF round_double_800_100]) simp
  have "utilization_percentage 800 1000 = Inr (float_mul (to_float (4 / 5)) (Finite 100))"
    by (simp add: utilization_percentage_def float_div_def int_to_float_exact[of 800])
  also have "\<dots> = Inr (Finite 80)"
    unfolding a float_mul_def using b by simp
  finally show ?thesis .
qed


lemma utilization_x:
  "utilization_percentage 6500000000000 (8319999999999999 / 1024) = Inr (Finite 80)"
proof -
  have a: "to_float (6500000000000 / (8319999999999999 / 1024)) =
             Finite (3602879701896397 / 4503599627370496)"
    by (rule to_float_finite[OF round_double_x]) simp
  have b: "to_float (3602879701896397 / 4503599627370496 * 100) = Finite 80"
    by (rule to_float_finite[OF round_double_800_100]) simp
  have "utilization_percentage 6500000000000 (8319999999999999 / 1024) =
          Inr (float_mul (to_float (6500000000000 / (8319999999999999 / 1024))) (Finite 100))"
    by (simp add: utilization_percentage_def float_div_def int_to_float_exact[of 6500000000000])
  also have "\<dots> = Inr (Finite 80)"
    unfolding a float_mul_def using b by simp
  finally show ?thesis .
qed

lemma int_truediv_exact:
  assumes "\<bar>k\<bar> < 2 ^ 53"
  shows "int_truediv k 1024 = Inr (of_int k / 1024)"
proof -
  have r: "round_double (of_int k / 1024) = of_int k / 1024"
    using round_double_exact[of "of_int k / 1024" k "- 10"] assms
    by (simp add: power_int_minus)
  have "\<bar>of_int k :: rat\<bar> < of_int (2 ^ 53)"
    using assms by (simp only: of_int_less_iff flip: of_int_abs)
  then have "\<bar>of_int k / 1024 :: rat\<bar> < 2 ^ 1024" by simp
  then show ?thesis by (simp add: int_truediv_def float_max_bound_def r)
qed

lemma sample_capacity:
  "memory_capacity node_a = Inr 1000" "memory_capacity node_b = Inr 1000"
  "memory_capacity node_c = Inr 1000" "memory_capacity node_d = Inr 2000"
  "memory_capacity node_x = Inr (8319999999999999 / 1024)" "memory_capacity node_0 = Inr 0"
proof -
  have a: "int_of_str (rstrip ''Ki'' ''1024000Ki'') = Inr 1024000" by code_simp
  have d: "int_of_str (rstrip ''Ki'' ''2048000Ki'') = Inr 2048000" by code_simp
  have x: "int_of_str (rstrip ''Ki'' ''8319999999999999Ki'') = Inr 8319999999999999" by code_simp
  have z: "int_of_str (rstrip ''Ki'' ''0Ki'') = Inr 0" by code_simp
  show "memory_capacity node_a = Inr 1000" "memory_capacity node_b = Inr 1000"
    "memory_capacity node_c = Inr 1000"
    using int_truediv_exact[of 1024000]
    by (simp_all add: memory_capacity_def node_a_def node_b_def node_c_def a)
  show "memory_capacity node_d = Inr 2000"
    using int_truediv_exact[of 2048000] by (simp add: memory_capacity_def node_d_def d)
  show "memory_capacity node_x = Inr (8319999999999999 / 1024)"
    using int_truediv_exact[of 8319999999999999] by (simp add: memory_capacity_def node_x_def x)
  show "memory_capacity node_0 = Inr 0"
    using int_truediv_exact[of 0] by (simp add: memory_capacity_def node_0_def z)
qed

lemma sample_node_usage:
  "fetch_memory sample_cluster ''node'' None ''node-a'' = Inr 801"
  "fetch_memory sample_cluster ''node'' None ''node-b'' = Inr 800"
  "fetch_memory sample_cluster ''node'' None ''node-c'' = Inl (ApiException ''Not Found'')"
  "fetch_memory sample_cluster ''node'' None ''node-d'' = Inr 500"
  "fetch_memory sample_cluster ''node'' None ''node-x'' = Inr 6500000000000"
  "fetch_memory sample_cluster ''node'' None ''node-0'' = Inr 100"
  by code_simp+

lemma sample_node_names:
  "node_name node_a = ''node-a''" "node_name node_b = ''node-b''" "node_name node_c = ''node-c''"
  "node_name node_d = ''node-d''" "node_name node_x = ''node-x''" "node_name node_0 = ''node-0''"
  by (simp_all add: node_a_def node_b_def node_c_def node_d_def node_x_def node_0_def)

lemma sample_print_error_simps [simp]:
  "print_error sample_cluster = sample_print_error"
  "sample_print_error (PrintTable t) = None"
  "sample_print_error (FetchError rt name e) =
     (if rt = ''[/x]''
      then Some (MarkupError ''closing tag '[/x]' at position 36 doesn't match any open tag'')
      else None)"
  "sample_print_error (AnalyzeError kind name e) =
     (if kind = ''[/x]''
      then Some (MarkupError ''closing tag '[/x]' at position 26 doesn't match any open tag'')
      else None)"
  by (simp_all add: sample_cluster_def sample_print_error_def)

lemma sample_analyze_nodes:
  "analyze_nodes sample_cluster [] =
     Inr ([''node-a''],
          [FetchError ''node'' ''node-c'' (ApiException ''Not Found''),
           PrintTable (node_table
             [[Text ''node-a'', Thousands 1000, Thousands 801,
               Fixed2 (Finite (5636536408630887 / 70368744177664)), Text ''High Usage''],
              [Text ''node-b'', Thousands 1000, Thousands 800, Fixed2 (Finite 80), Text ''OK'']])])"
proof -
  have l: "list_node sample_cluster = Inr [node_a, node_c, node_b]"
    by (simp add: sample_cluster_def sample_nodes_def)
  show ?thesis
    by (simp add: analyze_nodes_def l sample_capacity sample_node_names
        get_memory_utilization_def console_print_def sample_node_usage utilization_801
        utilization_800 float_gt_def)
qed

lemma sample_run_node_a:
  "run_node sample_cluster ''node-a'' con =
   Inr (con @
       [PrintTable (pod_table ''node-a''
          [[Text ''p1'', Text ''default'', Thousands 50],
           [Text ''p2'', Text ''default'', Thousands 120],
           [Text ''p3'', Text ''default'', Thousands 120],
           [Text ''p4'', Text ''default'', Thousands 30]]),
        AnalyzeError ''Job'' ''backup'' (ValueError ''Unsupported controller kind: Job'')])"
proof -
  have l: "list_pod_for_all_namespaces sample_cluster ''spec.nodeName=node-a'' = Inr pods_on_a"
    by (simp add: sample_cluster_def)
  have u: "fetch_memory sample_cluster ''pod'' (Some ''default'') ''p1'' = Inr 50"
    "fetch_memory sample_cluster ''pod'' (Some ''default'') ''p2'' = Inr 120"
    "fetch_memory sample_cluster ''pod'' (Some ''default'') ''p3'' = Inr 120"
    "fetch_memory sample_cluster ''pod'' (Some ''default'') ''p4'' = Inr 30"
    by code_simp+
  have f: "fetch_pods_for_controller sample_cluster ''Job'' ''backup'' ''default'' =
             Inl (ValueError ''Unsupported controller kind: Job'')"
    using fetch_pods_other_kind[of "''Job''" sample_cluster "''backup''" "''default''"] by simp
  show ?thesis
    by (simp add: run_node_def analyze_pods_on_node_def l pods_on_a_def
        get_memory_utilization_fetched u console_print_def sample_pod_def
        get_controller_kind_and_name_def analyze_controller_def analyze_controller_body_def f)
qed

lemma sample_run:
  "run sample_cluster =
   Inr [FetchError ''node'' ''node-c'' (ApiException ''Not Found''),
        PrintTable (node_table
          [[Text ''node-a'', Thousands 1000, Thousands 801,
            Fixed2 (Finite (5636536408630887 / 70368744177664)), Text ''High Usage''],
           [Text ''node-b'', Thousands 1000, Thousands 800, Fixed2 (Finite 80), Text ''OK'']]),
        PrintTable (pod_table ''node-a''
          [[Text ''p1'', Text ''default'', Thousands 50],
           [Text ''p2'', Text ''default'', Thousands 120],
           [Text ''p3'', Text ''default'', Thousands 120],
           [Text ''p4'', Text ''default'', Thousands 30]]),
        AnalyzeError ''Job'' ''backup'' (ValueError ''Unsupported controller kind: Job'')]"
  by (simp add: run_def sample_analyze_nodes sample_run_node_a)

section \<open>The claims of the specification\<close>

subsection \<open>C3: the value of a quantity\<close>

text \<open>
  Claim C3 says that for every string of digits followed by an optional recognised unit,
  \<open>parse_memory\<close> returns the MiB value of the unit table: \<open>Ki\<close> divides by 1024,
  \<open>M\<close> and \<open>Mi\<close> multiply by 1, \<open>G\<close> and \<open>Gi\<close> multiply by 1024, no unit
  means \<open>M\<close>.

  The entry for \<open>Ki\<close> is the float \<open>1 / 1024\<close>, so the number is first converted to
  a double. The quantity \<open>9223372036854775807Ki\<close> is rounded to \<open>2^63\<close> and gives
  9007199254740992, one more than the quotient by 1024; a number of 309 digits with the
  unit \<open>Ki\<close> does not convert at all and raises \<open>OverflowError\<close>. And
  \<open>int\<close> refuses a string of more than 4300 digits, whatever the unit.
\<close>

theorem parse_memory_Ki_inexact:
  "parse_memory ''9223372036854775807Ki'' = Inr 9007199254740992
   \<and> parse_memory ''9223372036854775807Ki'' \<noteq> Inr (9223372036854775807 div 1024)
   \<and> parse_memory (CHR ''2'' # replicate 308 (CHR ''0'') @ ''Ki'') = Inl OverflowError
   \<and> parse_memory (replicate 4301 (CHR ''7'')) =
       Inl (ValueError ''Exceeds the limit (4300 digits) for integer string conversion'')"
proof -
  have sh: "quantity_shape ''9223372036854775807Ki'' ''9223372036854775807'' ''Ki'' []"
    by (simp add: quantity_shape_def is_digit_def is_letter_def)
  have d: "decimal ''9223372036854775807'' = 9223372036854775807"
    by (simp add: decimal_def digit_value_def)
  have m: "round_double 9007199254740992 = 9007199254740992"
    using round_double_exact[of 9007199254740992 1 53] by simp
  have a: "parse_memory ''9223372036854775807Ki'' = Inr 9007199254740992"
    by (simp add: parse_memory_Ki_shape[OF sh] d int_to_float_2_63 m)
  have sh2: "quantity_shape (CHR ''2'' # replicate 308 (CHR ''0'') @ ''Ki'')
               (CHR ''2'' # replicate 308 (CHR ''0'')) ''Ki'' []"
    by (simp add: quantity_shape_def is_digit_def is_letter_def list_all_iff)
  have b: "parse_memory (CHR ''2'' # replicate 308 (CHR ''0'') @ ''Ki'') = Inl OverflowError"
    by (rule parse_memory_Ki_overflow[OF sh2]) (simp_all add: decimal_zeros digit_value_def)
  have sh3: "quantity_shape (replicate 4301 (CHR ''7'')) (replicate 4301 (CHR ''7'')) [] []"
    by (simp add: quantity_shape_def is_digit_def list_all_iff)
  have c: "parse_memory (replicate 4301 (CHR ''7'')) =
       Inl (ValueError ''Exceeds the limit (4300 digits) for integer string conversion'')"
    by (rule parse_memory_too_long[OF sh3]) simp
  show ?thesis using a b c by simp
qed

text \<open>
  C3 as amended: for a string of at most 4300 digits (the interpreter's limit for
  \<open>int\<close>), no unit, \<open>M\<close> and \<open>Mi\<close> give the number, \<open>G\<close> and \<open>Gi\<close> give the
  number times 1024, and \<open>Ki\<close> gives the quotient by 1024, rounded down, when the
  number is below \<open>2^53\<close>.
\<close>

theorem parse_memory_units:
  assumes "ds \<noteq> []" and "\<forall>c\<in>set ds. is_digit c" and "length ds \<le> 4300"
  shows "parse_memory ds = Inr (decimal ds)
       \<and> parse_memory (ds @ ''M'') = Inr (decimal ds)
       \<and> parse_memory (ds @ ''Mi'') = Inr (decimal ds)
       \<and> parse_memory (ds @ ''G'') = Inr (decimal ds * 1024)
       \<and> parse_memory (ds @ ''Gi'') = Inr (decimal ds * 1024)
       \<and> (decimal ds < 2 ^ 53 \<longrightarrow> parse_memory (ds @ ''Ki'') = Inr (decimal ds div 1024))"
proof -
  have sh: "quantity_shape (ds @ ls) ds ls []" if "list_all is_letter ls" for ls
    using assms that by (simp add: quantity_shape_def list_all_iff)
  have len: "\<not> length ds > int_max_str_digits"
    using assms(3) by (simp add: int_max_str_digits_def)
  have "parse_memory (ds @ []) = Inr (decimal ds)"
    by (subst parse_memory_shape[OF sh]) (simp_all add: len units_def py_mul_def py_int_def)
  moreover have "parse_memory (ds @ ''M'') = Inr (decimal ds)"
    by (subst parse_memory_shape[OF sh])
      (simp_all add: len units_def py_mul_def py_int_def is_letter_def)
  moreover have "parse_memory (ds @ ''Mi'') = Inr (decimal ds)"
    by (subst parse_memory_shape[OF sh])
      (simp_all add: len units_def py_mul_def py_int_def is_letter_def)
  moreover have "parse_memory (ds @ ''G'') = Inr (decimal ds * 1024)"
    by (subst parse_memory_shape[OF sh])
      (simp_all add: len units_def py_mul_def py_int_def is_letter_def)
  moreover have "parse_memory (ds @ ''Gi'') = Inr (decimal ds * 1024)"
    by (subst parse_memory_shape[OF sh])
      (simp_all add: len units_def py_mul_def py_int_def is_letter_def)
  moreover have "parse_memory (ds @ ''Ki'') = Inr (decimal ds div 1024)" if "decimal ds < 2 ^ 53"
    by (subst parse_memory_shape[OF sh])
      (simp_all add: len units_def is_letter_def
         py_mul_Ki[OF decimal_nonneg[OF assms(2)] that])
  ultimately show ?thesis by simp
qed

theorem parse_memory_units_examples:
  "list_all is_digit ''6374'' \<and> list_all is_digit ''1024'' \<and> list_all is_digit ''2''
   \<and> list_all is_digit ''500'' \<and> decimal ''1024'' < 2 ^ 53
   \<and> parse_memory ''6374M'' = Inr 6374 \<and> parse_memory ''1024Ki'' = Inr 1
   \<and> parse_memory ''2G'' = Inr 2048 \<and> parse_memory ''500'' = Inr 500"
  using parse_memory_units [of "''6374''"] parse_memory_units [of "''1024''"]
    parse_memory_units [of "''2''"] parse_memory_units [of "''500''"]
  by (simp add: is_digit_def decimal_def digit_value_def)

subsection \<open>C4: when the parser fails\<close>

text \<open>
  Claim C4 says that \<open>parse_memory\<close> fails, with an error that carries the offending
  string, exactly when the string does not match the pattern or its unit is not in the
  table.

  For \<open>2X\<close> the message names the unit \<open>X\<close> only, not the string \<open>2X\<close>. And a
  string that matches the pattern and has the unit \<open>Ki\<close> of the table still fails when
  its number is too large for a double: \<open>1\<close> followed by 309 zeros and \<open>Ki\<close> raises
  \<open>OverflowError\<close>. So does a matching string of 4301 digits with the unit \<open>M\<close>:
  \<open>int\<close> refuses it.
\<close>

theorem parse_memory_other_failures:
  "parse_memory ''2X'' = Inl (ValueError ''Unsupported memory unit: X'')
   \<and> quantity_shape (CHR ''1'' # replicate 309 (CHR ''0'') @ ''Ki'')
         (CHR ''1'' # replicate 309 (CHR ''0'')) ''Ki'' []
   \<and> parse_memory (CHR ''1'' # replicate 309 (CHR ''0'') @ ''Ki'') = Inl OverflowError
   \<and> quantity_shape (replicate 4301 (CHR ''1'') @ ''M'') (replicate 4301 (CHR ''1'')) ''M'' []
   \<and> parse_memory (replicate 4301 (CHR ''1'') @ ''M'') =
       Inl (ValueError ''Exceeds the limit (4300 digits) for integer string conversion'')"
proof -
  have sh1: "quantity_shape ''2X'' ''2'' ''X'' []"
    by (simp add: quantity_shape_def is_digit_def is_letter_def)
  have a: "parse_memory ''2X'' = Inl (ValueError ''Unsupported memory unit: X'')"
    using parse_memory_bad_unit[OF sh1] by simp
  have sh2: "quantity_shape (CHR ''1'' # replicate 309 (CHR ''0'') @ ''Ki'')
               (CHR ''1'' # replicate 309 (CHR ''0'')) ''Ki'' []"
    by (simp add: quantity_shape_def is_digit_def is_letter_def list_all_iff)
  have b: "parse_memory (CHR ''1'' # replicate 309 (CHR ''0'') @ ''Ki'') = Inl OverflowError"
    by (rule parse_memory_Ki_overflow[OF sh2]) (simp_all add: decimal_zeros digit_value_def)
  have sh3: "quantity_shape (replicate 4301 (CHR ''1'') @ ''M'') (replicate 4301 (CHR ''1'')) ''M'' []"
    by (simp add: quantity_shape_def is_digit_def is_letter_def list_all_iff)
  have c: "parse_memory (replicate 4301 (CHR ''1'') @ ''M'') =
       Inl (ValueError ''Exceeds the limit (4300 digits) for integer string conversion'')"
    by (rule parse_memory_too_long[OF sh3]) simp
  show ?thesis using a sh2 b sh3 c by simp
qed

text \<open>
  C4 as amended. The pattern is read as Python reads it: \<open>$\<close> also matches before a
  final newline. \<open>parse_memory\<close> fails exactly when the string does not match the
  pattern, or has more than 4300 digits, or its unit is not in the table, or its unit is
  \<open>Ki\<close> and the number does not convert to a double. The error is
  \<open>ValueError\<close> with the whole string when the pattern does not match,
  \<open>ValueError\<close> with the unit alone when the unit is not in the table, the
  interpreter's \<open>ValueError\<close> for more than 4300 digits, and \<open>OverflowError\<close> for
  \<open>Ki\<close> with a number from \<open>2^1024\<close> on; with \<open>Ki\<close> and a number below
  \<open>2^1023\<close> the parser returns.
\<close>

theorem parse_memory_failure:
  "((\<exists>e. parse_memory v = Inl e) \<longleftrightarrow>
      \<not> (\<exists>ds ls nl. quantity_shape v ds ls nl \<and> length ds \<le> 4300 \<and>
            ls \<in> {[], ''Ki'', ''M'', ''Mi'', ''G'', ''Gi''} \<and>
            (ls = ''Ki'' \<longrightarrow> (\<exists>x. int_to_float (decimal ds) = Inr x))))
   \<and> (\<not> (\<exists>ds ls nl. quantity_shape v ds ls nl) \<longrightarrow>
        parse_memory v = Inl (ValueError (''Invalid memory format: '' @ v)))
   \<and> (\<forall>ds ls nl. quantity_shape v ds ls nl \<and> length ds \<le> 4300 \<and>
          ls \<notin> {[], ''Ki'', ''M'', ''Mi'', ''G'', ''Gi''} \<longrightarrow>
        parse_memory v = Inl (ValueError (''Unsupported memory unit: '' @ ls)))
   \<and> (\<forall>ds ls nl. quantity_shape v ds ls nl \<and> 4300 < length ds \<longrightarrow>
        parse_memory v =
          Inl (ValueError ''Exceeds the limit (4300 digits) for integer string conversion''))
   \<and> (\<forall>ds nl. quantity_shape v ds ''Ki'' nl \<and> length ds \<le> 4300 \<and> 2 ^ 1024 \<le> decimal ds \<longrightarrow>
        parse_memory v = Inl OverflowError)
   \<and> (\<forall>ds nl. quantity_shape v ds ''Ki'' nl \<and> length ds \<le> 4300 \<and> decimal ds < 2 ^ 1023 \<longrightarrow>
        (\<exists>m. parse_memory v = Inr m))"
proof (intro conjI allI impI)
  show "(\<exists>e. parse_memory v = Inl e) \<longleftrightarrow>
      \<not> (\<exists>ds ls nl. quantity_shape v ds ls nl \<and> length ds \<le> 4300 \<and>
            ls \<in> {[], ''Ki'', ''M'', ''Mi'', ''G'', ''Gi''} \<and>
            (ls = ''Ki'' \<longrightarrow> (\<exists>x. int_to_float (decimal ds) = Inr x)))"
    by (rule parse_memory_fails_iff)
next
  assume "\<not> (\<exists>ds ls nl. quantity_shape v ds ls nl)"
  then show "parse_memory v = Inl (ValueError (''Invalid memory format: '' @ v))"
    by (rule parse_memory_no_shape)
next
  fix ds ls nl
  assume "quantity_shape v ds ls nl \<and> length ds \<le> 4300 \<and>
          ls \<notin> {[], ''Ki'', ''M'', ''Mi'', ''G'', ''Gi''}"
  then show "parse_memory v = Inl (ValueError (''Unsupported memory unit: '' @ ls))"
    using parse_memory_bad_unit[of v ds ls nl] by (elim conjE) simp
next
  fix ds ls nl
  assume "quantity_shape v ds ls nl \<and> 4300 < length ds"
  then show "parse_memory v =
          Inl (ValueError ''Exceeds the limit (4300 digits) for integer string conversion'')"
    using parse_memory_too_long[of v ds ls nl] by (elim conjE) simp
next
  fix ds nl
  assume "quantity_shape v ds ''Ki'' nl \<and> length ds \<le> 4300 \<and> 2 ^ 1024 \<le> decimal ds"
  then show "parse_memory v = Inl OverflowError"
    using parse_memory_Ki_overflow[of v ds nl] by (elim conjE) simp
next
  fix ds nl
  assume "quantity_shape v ds ''Ki'' nl \<and> length ds \<le> 4300 \<and> decimal ds < 2 ^ 1023"
  then show "\<exists>m. parse_memory v = Inr m"
    using parse_memory_Ki_in_range[of v ds nl] by (elim conjE) simp
qed

theorem parse_memory_failure_examples:
  "re_match_quantity ''abc'' = None
   \<and> parse_memory ''abc'' = Inl (ValueError ''Invalid memory format: abc'')
   \<and> quantity_shape ''2X'' ''2'' ''X'' []
   \<and> parse_memory ''2X'' = Inl (ValueError ''Unsupported memory unit: X'')
   \<and> quantity_shape ''512Ki'' ''512'' ''Ki'' [] \<and> decimal ''512'' < 2 ^ 1023
   \<and> (\<exists>m. parse_memory ''512Ki'' = Inr m)"
proof -
  have n: "re_match_quantity ''abc'' = None"
    by (simp add: re_match_quantity_def is_digit_def)
  then have "\<not> (\<exists>ds ls nl. quantity_shape ''abc'' ds ls nl)"
    by (simp add: re_match_quantity_None)
  moreover have "\<not> (\<exists>ds ls nl. quantity_shape ''abc'' ds ls nl) \<longrightarrow>
        parse_memory ''abc'' = Inl (ValueError (''Invalid memory format: '' @ ''abc''))"
    using parse_memory_failure [of "''abc''"] by (elim conjE)
  ultimately have a: "parse_memory ''abc'' = Inl (ValueError ''Invalid memory format: abc'')"
    by simp
  have sh: "quantity_shape ''2X'' ''2'' ''X'' []"
    by (simp add: quantity_shape_def is_digit_def is_letter_def)
  have "(\<forall>ds ls nl. quantity_shape ''2X'' ds ls nl \<and> length ds \<le> 4300 \<and>
          ls \<notin> {[], ''Ki'', ''M'', ''Mi'', ''G'', ''Gi''} \<longrightarrow>
        parse_memory ''2X'' = Inl (ValueError (''Unsupported memory unit: '' @ ls)))"
    using parse_memory_failure [of "''2X''"] by (elim conjE)
  from this[rule_format, of "''2''" "''X''" "[]"] sh
  have b: "parse_memory ''2X'' = Inl (ValueError ''Unsupported memory unit: X'')"
    by simp
  have sk: "quantity_shape ''512Ki'' ''512'' ''Ki'' []"
    by (simp add: quantity_shape_def is_digit_def is_letter_def)
  have d: "decimal ''512'' < 2 ^ 1023"
    by (simp add: decimal_def digit_value_def)
  have "(\<forall>ds nl. quantity_shape ''512Ki'' ds ''Ki'' nl \<and> length ds \<le> 4300 \<and>
          decimal ds < 2 ^ 1023 \<longrightarrow> (\<exists>m. parse_memory ''512Ki'' = Inr m))"
    using parse_memory_failure [of "''512Ki''"] by (elim conjE)
  from this[rule_format, of "''512''" "[]"] sk d
  have c: "\<exists>m. parse_memory ''512Ki'' = Inr m"
    by simp
  show ?thesis using n a sh b sk d c by simp
qed

subsection \<open>C1: a Deployment without a ReplicaSet\<close>

text \<open>
  Claim C1 says that when no ReplicaSet of the namespace has an owner reference of kind
  Deployment with the Deployment's name, \<open>fetch_pods_for_controller\<close> returns an empty
  pod set and raises nothing.

  In the sample cluster the only ReplicaSet belongs to the Deployment \<open>api\<close>; resolving
  the Deployment \<open>web\<close> does not return the empty list, it raises.
\<close>

theorem deployment_without_replicaset_raises:
  "fetch_pods_for_controller sample_cluster ''Deployment'' ''web'' ''default'' \<noteq> Inr []
   \<and> fetch_pods_for_controller sample_cluster ''Deployment'' ''web'' ''default'' =
       Inl (ValueError ''Unsupported controller kind: Deployment'')"
proof -
  have "\<forall>rs\<in>set [api_replicaset]. \<not> owned_by_deployment ''web'' rs"
    by (simp add: owned_by_deployment_def api_replicaset_def)
  moreover have "list_namespaced_replica_set sample_cluster ''default'' = Inr [api_replicaset]"
    by (simp add: sample_cluster_def)
  ultimately have "fetch_pods_for_controller sample_cluster ''Deployment'' ''web'' ''default'' =
       Inl (ValueError ''Unsupported controller kind: Deployment'')"
    by (rule fetch_pods_deployment_no_rs[rotated])
  then show ?thesis by simp
qed

text \<open>
  C1 as amended: when the ReplicaSets of the namespace can be listed and none of them has
  an owner reference of kind Deployment with the Deployment's name, the loop falls through
  to the last statement of the function: \<open>fetch_pods_for_controller\<close> raises
  \<open>ValueError\<close> with the message \<open>Unsupported controller kind: Deployment\<close>.
\<close>

theorem deployment_without_replicaset:
  assumes "list_namespaced_replica_set c namespace = Inr replicasets"
      and "\<forall>rs\<in>set replicasets. \<forall>owners. ctl_owner_references rs = Some owners \<longrightarrow>
             (\<forall>owner\<in>set owners.
                \<not> (owner_kind owner = ''Deployment'' \<and> owner_name owner = controller_name))"
  shows "fetch_pods_for_controller c ''Deployment'' controller_name namespace =
           Inl (ValueError ''Unsupported controller kind: Deployment'')"
proof -
  have "\<forall>rs\<in>set replicasets. \<not> owned_by_deployment controller_name rs"
    using assms(2) by (auto simp: owned_by_deployment_iff)
  then show ?thesis
    using assms(1) by (rule fetch_pods_deployment_no_rs[rotated])
qed

theorem deployment_without_replicaset_example:
  "list_namespaced_replica_set sample_cluster ''default'' = Inr [api_replicaset]
   \<and> ctl_owner_references api_replicaset =
       Some [\<lparr>owner_kind = ''Deployment'', owner_name = ''api''\<rparr>]
   \<and> fetch_pods_for_controller sample_cluster ''Deployment'' ''web'' ''default'' =
       Inl (ValueError ''Unsupported controller kind: Deployment'')"
proof -
  have l: "list_namespaced_replica_set sample_cluster ''default'' = Inr [api_replicaset]"
    by (simp add: sample_cluster_def)
  have o: "ctl_owner_references api_replicaset =
       Some [\<lparr>owner_kind = ''Deployment'', owner_name = ''api''\<rparr>]"
    by (simp add: api_replicaset_def)
  show ?thesis
    using l o deployment_without_replicaset [OF l, of "''web''"] by simp
qed

subsection \<open>C10: a measurement never raises\<close>

text \<open>
  Claim C10: \<open>get_memory_utilization\<close> never raises; whatever its \<open>try\<close> body raises
  is caught by \<open>except Exception\<close>, printed, and the result is \<open>None\<close>. The handler
  does catch every exception of the body, but it prints the error with the resource type,
  the name and the error text put unescaped into a string that the console reads as
  markup. When that string has a closing tag that closes nothing, \<open>console.print\<close>
  raises \<open>MarkupError\<close> inside the \<open>except\<close> clause, and that exception leaves
  \<open>get_memory_utilization\<close>. With the resource type \<open>[/x]\<close> the body raises the
  unsupported-resource-type error of the claim, the line to print is
  \<open>[bold red]Error fetching memory for [/x] web: Unsupported resource type: [/x][/bold red]\<close>,
  and the call raises instead of returning \<open>None\<close>; nothing is printed.
\<close>

theorem get_memory_utilization_raises:
  "fetch_memory sample_cluster ''[/x]'' None ''web'' =
     Inl (ValueError ''Unsupported resource type: [/x]'')
   \<and> print_error sample_cluster
       (FetchError ''[/x]'' ''web'' (ValueError ''Unsupported resource type: [/x]'')) =
     Some (MarkupError ''closing tag '[/x]' at position 36 doesn't match any open tag'')
   \<and> get_memory_utilization sample_cluster ''[/x]'' None ''web'' [] =
     Inl (MarkupError ''closing tag '[/x]' at position 36 doesn't match any open tag'', [])"
proof -
  have f: "fetch_memory sample_cluster ''[/x]'' None ''web'' =
     Inl (ValueError ''Unsupported resource type: [/x]'')"
    by (simp add: fetch_memory_def)
  show ?thesis
    by (simp add: f get_memory_utilization_failed)
qed

subsection \<open>C5: the top pod\<close>

text \<open>
  Claim C5: among the pods of a node whose usage could be fetched, the top pod is chosen
  with a strict comparison in listing order, so the first pod that reaches the maximum
  wins a tie. Stated on the listing: whenever the analysis of the node returns, either no
  pod is chosen and no fetched usage is above 0, or the chosen pod has a usage above 0,
  every pod listed before it has a strictly smaller usage and every pod listed after it
  has a usage that is not larger. And the analysis returns when the console prints the
  table and the line of each pod whose usage could not be fetched; in particular when
  every usage is fetched and the table is printed.
\<close>

theorem top_pod_first_maximum:
  assumes "list_pod_for_all_namespaces c (''spec.nodeName='' @ nname) = Inr pods"
  shows "(\<forall>best con'. analyze_pods_on_node c nname con = Inr (best, con') \<longrightarrow>
           (case best of
              None \<Rightarrow> (\<forall>p\<in>set pods. \<forall>m. pod_usage c p = Inr m \<longrightarrow> m \<le> 0)
            | Some p \<Rightarrow>
                (\<exists>before after m. pods = before @ p # after \<and> pod_usage c p = Inr m \<and> 0 < m
                   \<and> (\<forall>q\<in>set before. \<forall>m'. pod_usage c q = Inr m' \<longrightarrow> m' < m)
                   \<and> (\<forall>q\<in>set after. \<forall>m'. pod_usage c q = Inr m' \<longrightarrow> m' \<le> m))))
       \<and> ((\<forall>p\<in>set pods. \<forall>e. pod_usage c p = Inl e \<longrightarrow>
              print_error c (FetchError ''pod'' (pod_name p) e) = None) \<and>
          (\<forall>rs. print_error c (PrintTable (pod_table nname rs)) = None) \<longrightarrow>
          (\<exists>best con'. analyze_pods_on_node c nname con = Inr (best, con')))"
proof (intro conjI allI impI)
  fix best con'
  assume "analyze_pods_on_node c nname con = Inr (best, con')"
  then obtain rs' con2 where l: "analyze_pods_loop c pods None 0 [] con = Inr (best, rs', con2)"
    unfolding analyze_pods_on_node_Inr[OF assms] by blast
  from analyze_pods_loop_top[OF l]
  show "case best of
              None \<Rightarrow> (\<forall>p\<in>set pods. \<forall>m. pod_usage c p = Inr m \<longrightarrow> m \<le> 0)
            | Some p \<Rightarrow>
                (\<exists>before after m. pods = before @ p # after \<and> pod_usage c p = Inr m \<and> 0 < m
                   \<and> (\<forall>q\<in>set before. \<forall>m'. pod_usage c q = Inr m' \<longrightarrow> m' < m)
                   \<and> (\<forall>q\<in>set after. \<forall>m'. pod_usage c q = Inr m' \<longrightarrow> m' \<le> m))"
  proof (elim disjE exE conjE)
    assume "best = None" "\<forall>p\<in>set pods. \<forall>m. pod_usage c p = Inr m \<longrightarrow> m \<le> 0"
    then show ?thesis by simp
  next
    fix before p after m
    assume "pods = before @ p # after" "best = Some p" "pod_usage c p = Inr m" "0 < m"
      "\<forall>q\<in>set before. \<forall>m'. pod_usage c q = Inr m' \<longrightarrow> m' < m"
      "\<forall>q\<in>set after. \<forall>m'. pod_usage c q = Inr m' \<longrightarrow> m' \<le> m"
    then show ?thesis by auto
  qed
next
  assume h: "(\<forall>p\<in>set pods. \<forall>e. pod_usage c p = Inl e \<longrightarrow>
              print_error c (FetchError ''pod'' (pod_name p) e) = None) \<and>
          (\<forall>rs. print_error c (PrintTable (pod_table nname rs)) = None)"
  then obtain best rs' con2 where
    l: "analyze_pods_loop c pods None 0 [] con = Inr (best, rs', con2)"
    using analyze_pods_loop_returns[of pods c None 0 "[]" con] by blast
  have "analyze_pods_on_node c nname con =
          Inr (best, con2 @ [PrintTable (pod_table nname rs')])"
    unfolding analyze_pods_on_node_Inr[OF assms] using l h by simp
  then show "\<exists>best con'. analyze_pods_on_node c nname con = Inr (best, con')" by blast
qed

text \<open>
  In the sample cluster the pods of \<open>node-a\<close> use 50, 120, 120 and 30 MiB in listing
  order; the second pod, the first with 120, is chosen.
\<close>

theorem top_pod_first_maximum_example:
  "list_pod_for_all_namespaces sample_cluster (''spec.nodeName='' @ ''node-a'') = Inr pods_on_a
   \<and> map (pod_usage sample_cluster) pods_on_a = [Inr 50, Inr 120, Inr 120, Inr 30]
   \<and> (\<forall>rs. print_error sample_cluster (PrintTable (pod_table ''node-a'' rs)) = None)
   \<and> analyze_pods_on_node sample_cluster ''node-a'' [] =
       Inr (Some (sample_pod ''p2'' ''node-a'' ''Job'' ''backup''),
            [PrintTable (pod_table ''node-a''
               [[Text ''p1'', Text ''default'', Thousands 50],
                [Text ''p2'', Text ''default'', Thousands 120],
                [Text ''p3'', Text ''default'', Thousands 120],
                [Text ''p4'', Text ''default'', Thousands 30]])])"
proof -
  have l: "list_pod_for_all_namespaces sample_cluster (''spec.nodeName='' @ ''node-a'')
             = Inr pods_on_a"
    by (simp add: sample_cluster_def)
  have u: "map (pod_usage sample_cluster) pods_on_a = [Inr 50, Inr 120, Inr 120, Inr 30]"
    by code_simp
  have a: "analyze_pods_on_node sample_cluster ''node-a'' [] =
       Inr (Some (sample_pod ''p2'' ''node-a'' ''Job'' ''backup''),
            [PrintTable (pod_table ''node-a''
               [[Text ''p1'', Text ''default'', Thousands 50],
                [Text ''p2'', Text ''default'', Thousands 120],
                [Text ''p3'', Text ''default'', Thousands 120],
                [Text ''p4'', Text ''default'', Thousands 30]])])"
    by code_simp
  show ?thesis
    using l u a top_pod_first_maximum [OF l, of "[]"] by simp
qed

subsection \<open>C9: a pod that uses 0 MiB\<close>

text \<open>
  Claim C9: the running maximum starts at 0 and the comparison is strict, so a pod whose
  fetched usage is 0 MiB is never the top pod; when every pod of a node whose usage could be
  fetched uses 0 MiB, \<open>analyze_pods_on_node\<close> returns no pod and the iteration of
  \<open>run\<close> for that node prints the pod table and nothing of the controller tier. The
  iteration of \<open>run\<close> then ends as \<open>analyze_pods_on_node\<close> ends: the controller
  tier is not entered, whether the pod tier returns or the console refuses one of its
  lines; and it returns, with no pod, when the console prints the table and the line of
  each pod whose usage could not be fetched.
\<close>

theorem zero_usage_pod_never_top:
  "(\<forall>p con'. analyze_pods_on_node c nname con = Inr (Some p, con') \<longrightarrow>
      (\<exists>m. pod_usage c p = Inr m \<and> 0 < m))
   \<and> (\<forall>pods. list_pod_for_all_namespaces c (''spec.nodeName='' @ nname) = Inr pods \<and>
         (\<forall>p\<in>set pods. \<forall>m. pod_usage c p = Inr m \<longrightarrow> m = 0) \<longrightarrow>
       (\<forall>p con'. analyze_pods_on_node c nname con \<noteq> Inr (Some p, con')) \<and>
       run_node c nname con =
         (case analyze_pods_on_node c nname con of
            Inl f \<Rightarrow> Inl f
          | Inr (best, con') \<Rightarrow> Inr con') \<and>
       ((\<forall>p\<in>set pods. \<forall>e. pod_usage c p = Inl e \<longrightarrow>
           print_error c (FetchError ''pod'' (pod_name p) e) = None) \<and>
        (\<forall>rs. print_error c (PrintTable (pod_table nname rs)) = None) \<longrightarrow>
        (\<exists>con'. analyze_pods_on_node c nname con = Inr (None, con') \<and>
           run_node c nname con = Inr con')))"
proof -
  have pos: "\<exists>m. pod_usage c p = Inr m \<and> 0 < m"
    if a: "analyze_pods_on_node c nname con = Inr (Some p, con')" for p con'
  proof -
    from a obtain pods where
      l: "list_pod_for_all_namespaces c (''spec.nodeName='' @ nname) = Inr pods"
      by (auto simp: analyze_pods_on_node_def split: sum.splits)
    from a obtain rs' con2 where
      lp: "analyze_pods_loop c pods None 0 [] con = Inr (Some p, rs', con2)"
      unfolding analyze_pods_on_node_Inr[OF l] by blast
    show ?thesis using analyze_pods_loop_top[OF lp] by auto
  qed
  have zero: "(\<forall>p con'. analyze_pods_on_node c nname con \<noteq> Inr (Some p, con')) \<and>
       run_node c nname con =
         (case analyze_pods_on_node c nname con of
            Inl f \<Rightarrow> Inl f
          | Inr (best, con') \<Rightarrow> Inr con') \<and>
       ((\<forall>p\<in>set pods. \<forall>e. pod_usage c p = Inl e \<longrightarrow>
           print_error c (FetchError ''pod'' (pod_name p) e) = None) \<and>
        (\<forall>rs. print_error c (PrintTable (pod_table nname rs)) = None) \<longrightarrow>
        (\<exists>con'. analyze_pods_on_node c nname con = Inr (None, con') \<and>
           run_node c nname con = Inr con'))"
    if l: "list_pod_for_all_namespaces c (''spec.nodeName='' @ nname) = Inr pods"
      and z: "\<forall>p\<in>set pods. \<forall>m. pod_usage c p = Inr m \<longrightarrow> m = 0" for pods
  proof -
    have none: "analyze_pods_on_node c nname con \<noteq> Inr (Some p, con')" for p con'
    proof
      assume a: "analyze_pods_on_node c nname con = Inr (Some p, con')"
      then obtain rs' con2 where
        lp: "analyze_pods_loop c pods None 0 [] con = Inr (Some p, rs', con2)"
        unfolding analyze_pods_on_node_Inr[OF l] by blast
      from analyze_pods_loop_top[OF lp] obtain m where "p \<in> set pods" "pod_usage c p = Inr m" "0 < m"
        by auto
      then show False using z by auto
    qed
    have r: "run_node c nname con =
         (case analyze_pods_on_node c nname con of
            Inl f \<Rightarrow> Inl f
          | Inr (best, con') \<Rightarrow> Inr con')"
      using none by (auto simp: run_node_def split: sum.splits option.splits)
    have t: "\<exists>con'. analyze_pods_on_node c nname con = Inr (None, con') \<and>
           run_node c nname con = Inr con'"
      if h: "(\<forall>p\<in>set pods. \<forall>e. pod_usage c p = Inl e \<longrightarrow>
           print_error c (FetchError ''pod'' (pod_name p) e) = None) \<and>
        (\<forall>rs. print_error c (PrintTable (pod_table nname rs)) = None)"
    proof -
      obtain best rs' con2 where
        lp: "analyze_pods_loop c pods None 0 [] con = Inr (best, rs', con2)"
        using h analyze_pods_loop_returns[of pods c None 0 "[]" con] by blast
      have a: "analyze_pods_on_node c nname con =
              Inr (best, con2 @ [PrintTable (pod_table nname rs')])"
        unfolding analyze_pods_on_node_Inr[OF l] using lp h by simp
      then have "best = None" using none by (cases best) auto
      then show ?thesis using a by (simp add: run_node_def)
    qed
    show ?thesis using none r t by blast
  qed
  show ?thesis using pos zero by blast
qed

theorem zero_usage_pod_never_top_example:
  "list_pod_for_all_namespaces sample_cluster (''spec.nodeName='' @ ''node-z'') = Inr pods_on_z
   \<and> map (pod_usage sample_cluster) pods_on_z = [Inr 0, Inr 0]
   \<and> (\<forall>rs. print_error sample_cluster (PrintTable (pod_table ''node-z'' rs)) = None)
   \<and> run_node sample_cluster ''node-z'' [] =
       Inr [PrintTable (pod_table ''node-z''
              [[Text ''z1'', Text ''default'', Thousands 0],
               [Text ''z2'', Text ''default'', Thousands 0]])]"
proof -
  have l: "list_pod_for_all_namespaces sample_cluster (''spec.nodeName='' @ ''node-z'')
             = Inr pods_on_z"
    by (simp add: sample_cluster_def)
  have u: "map (pod_usage sample_cluster) pods_on_z = [Inr 0, Inr 0]"
    by code_simp
  have z: "\<forall>p\<in>set pods_on_z. \<forall>m. pod_usage sample_cluster p = Inr m \<longrightarrow> m = 0"
    using u by (simp add: pods_on_z_def)
  have e: "\<forall>p\<in>set pods_on_z. \<forall>e. pod_usage sample_cluster p = Inl e \<longrightarrow>
           print_error sample_cluster (FetchError ''pod'' (pod_name p) e) = None"
    by simp
  have a: "analyze_pods_on_node sample_cluster ''node-z'' [] =
       Inr (None, [PrintTable (pod_table ''node-z''
              [[Text ''z1'', Text ''default'', Thousands 0],
               [Text ''z2'', Text ''default'', Thousands 0]])])"
    by code_simp
  show ?thesis
    using l u z e a zero_usage_pod_never_top [of sample_cluster "''node-z''" "[]"] by auto
qed

subsection \<open>C7: the usage of a pod\<close>

text \<open>
  Claim C7: the memory usage reported for a pod is the sum of the parsed memory of every
  container of the metrics response. A usage is reported exactly when the response is
  there, validates, and the memory of every container parses; it is then the sum of the
  parsed values, and the containers of the validated model are those of the response, in
  order, each with its \<open>usage.memory\<close> string.
\<close>

theorem pod_usage_is_container_sum:
  "(get_memory_utilization c ''pod'' namespace name con = Inr (Some usage, con') \<longleftrightarrow>
      (\<exists>metrics pm ms.
         get_namespaced_custom_object c namespace name = Inr metrics \<and>
         validate_PodMetrics metrics = Inr pm \<and>
         map (\<lambda>cu. parse_memory (memory (cu_usage cu))) (pm_containers pm) = map Inr ms \<and>
         usage = sum_list ms \<and> con' = con))
   \<and> (\<forall>metrics pm. validate_PodMetrics metrics = Inr pm \<longrightarrow>
        (\<exists>obj js. metrics = JObj obj \<and> map_of obj ''containers'' = Some (JArr js) \<and>
           list_all2 (\<lambda>j cu. \<exists>ob u. j = JObj ob \<and> map_of ob ''usage'' = Some (JObj u)
                        \<and> map_of u ''memory'' = Some (JStr (memory (cu_usage cu))))
             js (pm_containers pm)))"
proof (intro conjI allI impI)
  show "get_memory_utilization c ''pod'' namespace name con = Inr (Some usage, con') \<longleftrightarrow>
      (\<exists>metrics pm ms.
         get_namespaced_custom_object c namespace name = Inr metrics \<and>
         validate_PodMetrics metrics = Inr pm \<and>
         map (\<lambda>cu. parse_memory (memory (cu_usage cu))) (pm_containers pm) = map Inr ms \<and>
         usage = sum_list ms \<and> con' = con)"
    unfolding get_memory_utilization_Some fetch_memory_pod_Inr sum_container_memory_Inr
    by blast
next
  fix metrics pm
  assume "validate_PodMetrics metrics = Inr pm"
  then show "\<exists>obj js. metrics = JObj obj \<and> map_of obj ''containers'' = Some (JArr js) \<and>
           list_all2 (\<lambda>j cu. \<exists>ob u. j = JObj ob \<and> map_of ob ''usage'' = Some (JObj u)
                        \<and> map_of u ''memory'' = Some (JStr (memory (cu_usage cu))))
             js (pm_containers pm)"
    by (rule validate_PodMetrics_containers)
qed

text \<open>The pod \<open>p5\<close> of the sample cluster has two containers, with 100M and 200M.\<close>

theorem pod_usage_is_container_sum_example:
  "get_namespaced_custom_object sample_cluster (Some ''default'') ''p5'' =
     Inr (pod_metrics_doc ''p5'' [''100M'', ''200M''])
   \<and> map (\<lambda>cu. parse_memory (memory (cu_usage cu)))
        (case validate_PodMetrics (pod_metrics_doc ''p5'' [''100M'', ''200M'']) of
           Inr pm \<Rightarrow> pm_containers pm | Inl e \<Rightarrow> []) = [Inr 100, Inr 200]
   \<and> get_memory_utilization sample_cluster ''pod'' (Some ''default'') ''p5'' [] =
       Inr (Some 300, [])"
proof -
  have a: "get_namespaced_custom_object sample_cluster (Some ''default'') ''p5'' =
     Inr (pod_metrics_doc ''p5'' [''100M'', ''200M''])"
    by (simp add: sample_cluster_def)
  have b: "map (\<lambda>cu. parse_memory (memory (cu_usage cu)))
        (case validate_PodMetrics (pod_metrics_doc ''p5'' [''100M'', ''200M'']) of
           Inr pm \<Rightarrow> pm_containers pm | Inl e \<Rightarrow> []) = [Inr 100, Inr 200]"
    by code_simp
  have c: "get_memory_utilization sample_cluster ''pod'' (Some ''default'') ''p5'' [] =
       Inr (Some 300, [])"
    by code_simp
  show ?thesis
    using a b c
      pod_usage_is_container_sum [of sample_cluster "Some ''default''" "''p5''" "[]" 300 "[]"]
    by simp
qed

subsection \<open>C2: an unsupported controller kind\<close>

text \<open>
  Claim C2 has two parts. For a controller kind other than Deployment, ReplicaSet,
  StatefulSet and DaemonSet, \<open>fetch_pods_for_controller\<close> fails with the
  unsupported-kind error: this holds. When that happens during the run, the claim says,
  the error leaves \<open>run\<close> uncaught and ends the process: this does not hold.
  \<open>fetch_pods_for_controller\<close> is called inside the \<open>try\<close> statement of
  \<open>analyze_controller\<close>, which prints the error. In the sample cluster the top pod of
  \<open>node-a\<close> is owned by a Job; the run completes and its last line is the error.
\<close>

theorem unsupported_kind_does_not_end_run:
  "fetch_pods_for_controller sample_cluster ''Job'' ''backup'' ''default'' =
     Inl (ValueError ''Unsupported controller kind: Job'')
   \<and> run sample_cluster =
     Inr [FetchError ''node'' ''node-c'' (ApiException ''Not Found''),
          PrintTable (node_table
            [[Text ''node-a'', Thousands 1000, Thousands 801,
              Fixed2 (Finite (5636536408630887 / 70368744177664)), Text ''High Usage''],
             [Text ''node-b'', Thousands 1000, Thousands 800, Fixed2 (Finite 80), Text ''OK'']]),
          PrintTable (pod_table ''node-a''
            [[Text ''p1'', Text ''default'', Thousands 50],
             [Text ''p2'', Text ''default'', Thousands 120],
             [Text ''p3'', Text ''default'', Thousands 120],
             [Text ''p4'', Text ''default'', Thousands 30]]),
          AnalyzeError ''Job'' ''backup'' (ValueError ''Unsupported controller kind: Job'')]"
  using fetch_pods_other_kind[of "''Job''" sample_cluster "''backup''" "''default''"] sample_run
  by simp

text \<open>
  C2 as amended: for every controller kind outside the four, resolving the pod set fails
  with \<open>ValueError\<close> and the message \<open>Unsupported controller kind:\<close> followed by the
  kind; the \<open>except\<close> clause of \<open>analyze_controller\<close> catches it and prints it, so
  that what \<open>analyze_controller\<close> does is what that \<open>print\<close> does; and when the line
  is printed and the top pod of a high-usage node has such an owner, the iteration of
  \<open>run\<close> for that node ends normally with that line printed last, and \<open>run\<close> goes
  on with the next node.
\<close>

theorem unsupported_controller_kind:
  assumes "controller_kind \<notin> {''Deployment'', ''ReplicaSet'', ''StatefulSet'', ''DaemonSet''}"
  shows "fetch_pods_for_controller c controller_kind controller_name namespace =
           Inl (ValueError (''Unsupported controller kind: '' @ controller_kind))
       \<and> analyze_controller c controller_kind controller_name namespace con =
           console_print c
             (AnalyzeError controller_kind controller_name
                (ValueError (''Unsupported controller kind: '' @ controller_kind))) con
       \<and> (print_error c
             (AnalyzeError controller_kind controller_name
                (ValueError (''Unsupported controller kind: '' @ controller_kind))) = None \<longrightarrow>
           analyze_controller c controller_kind controller_name namespace con =
             Inr (con @ [AnalyzeError controller_kind controller_name
                    (ValueError (''Unsupported controller kind: '' @ controller_kind))]) \<and>
           (\<forall>nname p con' high_usage_nodes.
             analyze_pods_on_node c nname con = Inr (Some p, con') \<and>
             get_controller_kind_and_name p = (Some controller_kind, Some controller_name) \<and>
             controller_kind \<noteq> [] \<and> controller_name \<noteq> [] \<longrightarrow>
             run_node c nname con =
               Inr (con' @ [AnalyzeError controller_kind controller_name
                              (ValueError (''Unsupported controller kind: '' @ controller_kind))]) \<and>
             run_loop c (nname # high_usage_nodes) con =
               run_loop c high_usage_nodes
                 (con' @ [AnalyzeError controller_kind controller_name
                            (ValueError (''Unsupported controller kind: '' @ controller_kind))])))"
proof -
  have f: "fetch_pods_for_controller c controller_kind controller_name ns =
           Inl (ValueError (''Unsupported controller kind: '' @ controller_kind))" for ns
    using assms by (rule fetch_pods_other_kind)
  have a: "analyze_controller c controller_kind controller_name ns k =
           console_print c
             (AnalyzeError controller_kind controller_name
                (ValueError (''Unsupported controller kind: '' @ controller_kind))) k" for ns k
    by (simp add: analyze_controller_def analyze_controller_body_def f)
  show ?thesis
    by (simp add: f a run_node_def console_print_def)
qed

theorem unsupported_controller_kind_example:
  "print_error sample_cluster
     (AnalyzeError ''Job'' ''backup'' (ValueError (''Unsupported controller kind: '' @ ''Job''))) =
     None
   \<and> analyze_pods_on_node sample_cluster ''node-a'' [] =
       Inr (Some (sample_pod ''p2'' ''node-a'' ''Job'' ''backup''),
            [PrintTable (pod_table ''node-a''
               [[Text ''p1'', Text ''default'', Thousands 50],
                [Text ''p2'', Text ''default'', Thousands 120],
                [Text ''p3'', Text ''default'', Thousands 120],
                [Text ''p4'', Text ''default'', Thousands 30]])])
   \<and> get_controller_kind_and_name (sample_pod ''p2'' ''node-a'' ''Job'' ''backup'') =
       (Some ''Job'', Some ''backup'')
   \<and> run_node sample_cluster ''node-a'' [] =
       Inr [PrintTable (pod_table ''node-a''
               [[Text ''p1'', Text ''default'', Thousands 50],
                [Text ''p2'', Text ''default'', Thousands 120],
                [Text ''p3'', Text ''default'', Thousands 120],
                [Text ''p4'', Text ''default'', Thousands 30]]),
            AnalyzeError ''Job'' ''backup'' (ValueError ''Unsupported controller kind: Job'')]"
proof -
  have a: "analyze_pods_on_node sample_cluster ''node-a'' [] =
       Inr (Some (sample_pod ''p2'' ''node-a'' ''Job'' ''backup''),
            [PrintTable (pod_table ''node-a''
               [[Text ''p1'', Text ''default'', Thousands 50],
                [Text ''p2'', Text ''default'', Thousands 120],
                [Text ''p3'', Text ''default'', Thousands 120],
                [Text ''p4'', Text ''default'', Thousands 30]])])"
    by code_simp
  have g: "get_controller_kind_and_name (sample_pod ''p2'' ''node-a'' ''Job'' ''backup'') =
       (Some ''Job'', Some ''backup'')"
    by (simp add: get_controller_kind_and_name_def sample_pod_def)
  have k: "''Job'' \<notin> {''Deployment'', ''ReplicaSet'', ''StatefulSet'', ''DaemonSet''}"
    by simp
  show ?thesis
    using a g unsupported_controller_kind [OF k, of sample_cluster "''backup''" "''default''" "[]"]
    by simp
qed

subsection \<open>C6: utilization and the high-usage mark\<close>

text \<open>
  Claim C6: for a node whose capacity and usage were retrieved, the utilization is
  usage / capacity \<open>\<times>\<close> 100 and the node is marked high exactly when that percentage is
  strictly above 80.

  The script computes the percentage in floats and tests the computed value. The node
  \<open>node-x\<close> has 8319999999999999 Ki, of which 6500000000000 MiB are used: the exact
  percentage is above 80, the computed one is 80.0 and the node is marked \<open>OK\<close>. And
  the capacity \<open>0Ki\<close> of \<open>node-0\<close> is retrieved, as 0.0, as is its usage: the
  division raises \<open>ZeroDivisionError\<close> and there is no percentage. Nor is there one
  for a usage of \<open>2^1024\<close> MiB, which does not convert to a float.
\<close>

theorem node_utilization_inexact:
  "memory_capacity node_x = Inr (8319999999999999 / 1024)
   \<and> fetch_memory sample_cluster ''node'' None (node_name node_x) = Inr 6500000000000
   \<and> (80 :: rat) < 6500000000000 / (8319999999999999 / 1024) * 100
   \<and> analyze_nodes_loop sample_cluster [node_x] [] [] [] =
       Inr ([[Text ''node-x'', Thousands 8125000000000, Thousands 6500000000000,
              Fixed2 (Finite 80), Text ''OK'']], [], [])
   \<and> memory_capacity node_0 = Inr 0
   \<and> fetch_memory sample_cluster ''node'' None (node_name node_0) = Inr 100
   \<and> analyze_nodes_loop sample_cluster [node_0] [] [] [] = Inl (ZeroDivisionError, [])
   \<and> utilization_percentage (2 ^ 1024) 1000 = Inl OverflowError"
proof -
  have o: "utilization_percentage (2 ^ 1024) 1000 = Inl OverflowError"
    using int_to_float_overflow[of "2 ^ 1024"] by (simp add: utilization_percentage_def)
  have ux: "fetch_memory sample_cluster ''node'' None (node_name node_x) = Inr 6500000000000"
    and u0: "fetch_memory sample_cluster ''node'' None (node_name node_0) = Inr 100"
    by (simp_all add: sample_node_names sample_node_usage)
  have e: "(80 :: rat) < 6500000000000 / (8319999999999999 / 1024) * 100"
    by simp
  have c: "\<lceil>8319999999999999 / 1024 :: rat\<rceil> = 8125000000000"
    by (simp add: ceiling_unique)
  have x: "analyze_nodes_loop sample_cluster [node_x] [] [] [] =
       Inr ([[Text ''node-x'', Thousands 8125000000000, Thousands 6500000000000,
              Fixed2 (Finite 80), Text ''OK'']], [], [])"
    using c
    by (simp add: sample_capacity sample_node_usage get_memory_utilization_fetched utilization_x
        float_gt_def sample_node_names)
  have z: "utilization_percentage 100 0 = Inl ZeroDivisionError"
    by (simp add: utilization_percentage_def float_div_def int_to_float_exact[of 100])
  have y: "analyze_nodes_loop sample_cluster [node_0] [] [] [] = Inl (ZeroDivisionError, [])"
    by (simp add: sample_capacity sample_node_usage sample_node_names
        get_memory_utilization_fetched z)
  show ?thesis
    using sample_capacity(5,6) ux u0 e x y o by simp
qed

text \<open>
  C6 as amended. For a node whose capacity is retrieved and is not zero, and whose usage
  is retrieved and is below \<open>2^1023\<close> MiB, the percentage is computed in floats: the
  usage is converted to a double, divided by the capacity and multiplied by 100, each
  result rounded to the nearest double (an infinity when it is out of range). The row of
  the node carries that computed percentage, and the node is marked, in its row and in the
  high-usage list, exactly when the computed percentage is strictly above 80. That is the
  case exactly when the quotient of the converted usage by the capacity is above
  \<open>14411518807585589 / 2^54\<close>, which is 0.8 and about \<open>10^-16\<close>; a usage below
  \<open>2^53\<close> is converted exactly. And for a usage from 1 MiB and a capacity from 1 Ki, both
  below \<open>2^53\<close>, the computed percentage is finite and within a relative \<open>2^-51\<close> of
  usage / capacity \<open>\<times>\<close> 100.
\<close>

theorem node_utilization_mark:
  assumes "memory_capacity nd = Inr cap" and "cap \<noteq> 0"
      and "fetch_memory c ''node'' None (node_name nd) = Inr used" and "used < 2 ^ 1023"
  shows "\<exists>pct. utilization_percentage used cap = Inr pct
           \<and> pct = float_mul (to_float (round_double (of_int used) / cap)) (Finite 100)
           \<and> analyze_nodes_loop c (nd # nodes) node_rows high_usage_nodes con =
               analyze_nodes_loop c nodes
                 (node_rows @
                    [[Text (node_name nd), Thousands \<lceil>cap\<rceil>, Thousands used, Fixed2 pct,
                      Text (if float_gt pct 80 then ''High Usage'' else ''OK'')]])
                 (if float_gt pct 80 then high_usage_nodes @ [node_name nd] else high_usage_nodes)
                 con
           \<and> (float_gt pct 80 \<longleftrightarrow> 14411518807585589 / 2 ^ 54 < round_double (of_int used) / cap)
           \<and> (used < 2 ^ 53 \<longrightarrow>
                (float_gt pct 80 \<longleftrightarrow> 14411518807585589 / 2 ^ 54 < of_int used / cap))
           \<and> (1 \<le> used \<and> used < 2 ^ 53 \<and> 1 / 1024 \<le> cap \<and> cap < 2 ^ 53 \<longrightarrow>
                (\<exists>p. pct = Finite p \<and>
                   \<bar>p - of_int used / cap * 100\<bar> \<le> of_int used / cap * 100 / 2 ^ 51))"
proof -
  obtain pct where p: "utilization_percentage used cap = Inr pct"
    and q: "pct = float_mul (to_float (round_double (of_int used) / cap)) (Finite 100)"
    and s: "analyze_nodes_loop c (nd # nodes) node_rows high_usage_nodes con =
               analyze_nodes_loop c nodes
                 (node_rows @
                    [[Text (node_name nd), Thousands \<lceil>cap\<rceil>, Thousands used, Fixed2 pct,
                      Text (if float_gt pct 80 then ''High Usage'' else ''OK'')]])
                 (if float_gt pct 80 then high_usage_nodes @ [node_name nd] else high_usage_nodes)
                 con"
    using analyze_nodes_loop_step[OF assms] by blast
  have t: "float_gt pct 80 \<longleftrightarrow> 14411518807585589 / 2 ^ 54 < round_double (of_int used) / cap"
    unfolding q by (rule high_usage_threshold)
  have n: "0 \<le> used" using assms(3) by (rule fetch_memory_node_nonneg)
  have x: "float_gt pct 80 \<longleftrightarrow> 14411518807585589 / 2 ^ 54 < of_int used / cap"
    if "used < 2 ^ 53"
  proof -
    have "\<bar>used\<bar> < 2 ^ 53" using n that by simp
    then have "round_double (of_int used) = of_int used"
      using round_double_exact[of "of_int used" used 0] by simp
    then show ?thesis using t by simp
  qed
  have e: "\<exists>p. pct = Finite p \<and>
             \<bar>p - of_int used / cap * 100\<bar> \<le> of_int used / cap * 100 / 2 ^ 51"
    if "1 \<le> used \<and> used < 2 ^ 53 \<and> 1 / 1024 \<le> cap \<and> cap < 2 ^ 53"
  proof -
    have "1 \<le> used" "used < 2 ^ 53" "1 / 1024 \<le> cap" "cap < 2 ^ 53" using that by blast+
    then obtain p' where "utilization_percentage used cap = Inr (Finite p')"
      and "\<bar>p' - of_int used / cap * 100\<bar> \<le> of_int used / cap * 100 / 2 ^ 51"
      using utilization_percentage_error by blast
    then show ?thesis using p by auto
  qed
  show ?thesis
    using p q s t x e by blast
qed

text \<open>
  The two nodes of the sample cluster have a capacity of 1000 MiB. With a usage of 801 MiB
  the computed percentage is 80.10000000000000853, printed as 80.10, and the node is
  marked; with 800 MiB it is exactly 80 and the node is not marked.
\<close>

theorem node_utilization_mark_example:
  "memory_capacity node_a = Inr 1000 \<and> memory_capacity node_b = Inr 1000
   \<and> fetch_memory sample_cluster ''node'' None (node_name node_a) = Inr 801
   \<and> fetch_memory sample_cluster ''node'' None (node_name node_b) = Inr 800
   \<and> utilization_percentage 801 1000 = Inr (Finite (5636536408630887 / 70368744177664))
   \<and> \<bar>5636536408630887 / 70368744177664 - 801 / 10\<bar> < (1 / 10 ^ 13 :: rat)
   \<and> utilization_percentage 800 1000 = Inr (Finite 80)
   \<and> analyze_nodes_loop sample_cluster [node_a, node_b] [] [] [] =
       Inr ([[Text ''node-a'', Thousands 1000, Thousands 801,
              Fixed2 (Finite (5636536408630887 / 70368744177664)), Text ''High Usage''],
             [Text ''node-b'', Thousands 1000, Thousands 800, Fixed2 (Finite 80), Text ''OK'']],
            [''node-a''], [])"
proof -
  have ua: "fetch_memory sample_cluster ''node'' None (node_name node_a) = Inr 801"
    and ub: "fetch_memory sample_cluster ''node'' None (node_name node_b) = Inr 800"
    by (simp_all add: sample_node_names sample_node_usage)
  have e: "\<bar>5636536408630887 / 70368744177664 - 801 / 10\<bar> < (1 / 10 ^ 13 :: rat)"
    by simp
  have a: "analyze_nodes_loop sample_cluster [node_a, node_b] [] [] [] =
             analyze_nodes_loop sample_cluster [node_b]
               [[Text ''node-a'', Thousands 1000, Thousands 801,
                 Fixed2 (Finite (5636536408630887 / 70368744177664)), Text ''High Usage'']]
               [''node-a''] []"
  proof -
    have "(1000::rat) \<noteq> 0" "(801::int) < 2 ^ 1023" by simp_all
    from node_utilization_mark [OF sample_capacity(1) this(1) ua this(2),
        of "[node_b]" "[]" "[]" "[]"]
    obtain pct where "utilization_percentage 801 1000 = Inr pct"
      and s: "analyze_nodes_loop sample_cluster [node_a, node_b] [] [] [] =
               analyze_nodes_loop sample_cluster [node_b]
                 ([] @ [[Text (node_name node_a), Thousands \<lceil>1000::rat\<rceil>, Thousands 801, Fixed2 pct,
                      Text (if float_gt pct 80 then ''High Usage'' else ''OK'')]])
                 (if float_gt pct 80 then [] @ [node_name node_a] else []) []"
      by blast
    then have pq: "pct = Finite (5636536408630887 / 70368744177664)"
      by (simp only: utilization_801 sum.inject)
    show ?thesis
      unfolding s pq by (simp add: sample_node_names float_gt_def del: analyze_nodes_loop.simps)
  qed
  have b: "analyze_nodes_loop sample_cluster [node_b]
               [[Text ''node-a'', Thousands 1000, Thousands 801,
                 Fixed2 (Finite (5636536408630887 / 70368744177664)), Text ''High Usage'']]
               [''node-a''] [] =
           Inr ([[Text ''node-a'', Thousands 1000, Thousands 801,
              Fixed2 (Finite (5636536408630887 / 70368744177664)), Text ''High Usage''],
             [Text ''node-b'', Thousands 1000, Thousands 800, Fixed2 (Finite 80), Text ''OK'']],
            [''node-a''], [])"
  proof -
    have "(1000::rat) \<noteq> 0" "(800::int) < 2 ^ 1023" by simp_all
    from node_utilization_mark [OF sample_capacity(2) this(1) ub this(2), of "[]"
        "[[Text ''node-a'', Thousands 1000, Thousands 801,
                 Fixed2 (Finite (5636536408630887 / 70368744177664)), Text ''High Usage'']]"
        "[''node-a'']" "[]"]
    obtain pct where "utilization_percentage 800 1000 = Inr pct"
      and s: "analyze_nodes_loop sample_cluster [node_b]
               [[Text ''node-a'', Thousands 1000, Thousands 801,
                 Fixed2 (Finite (5636536408630887 / 70368744177664)), Text ''High Usage'']]
               [''node-a''] [] =
               analyze_nodes_loop sample_cluster []
                 ([[Text ''node-a'', Thousands 1000, Thousands 801,
                    Fixed2 (Finite (5636536408630887 / 70368744177664)), Text ''High Usage'']] @
                  [[Text (node_name node_b), Thousands \<lceil>1000::rat\<rceil>, Thousands 800, Fixed2 pct,
                      Text (if float_gt pct 80 then ''High Usage'' else ''OK'')]])
                 (if float_gt pct 80 then [''node-a''] @ [node_name node_b] else [''node-a'']) []"
      by blast
    then have pq: "pct = Finite 80"
      by (simp only: utilization_800 sum.inject)
    show ?thesis
      unfolding s pq by (simp add: sample_node_names float_gt_def)
  qed
  show ?thesis
    using sample_capacity(1,2) ua ub utilization_801 e utilization_800 a b by simp
qed

subsection \<open>C8: one node whose usage cannot be fetched\<close>




end
